theory Spec2Isabelle
  imports Complex_Main
begin

section \<open>PyOnSSET: the LCOE tables (pyonsset/tables.py, pyonsset/constants.py)\<close>

text \<open>
  The program is Python 3: \<open>/\<close> is true division and \<open>math.ceil\<close> returns an integer.
  Python floats and numpy float64 values are modelled as real numbers, so every arithmetic
  step is exact: rounding error and overflow are outside the model. What the real numbers
  cannot hold is written out:
  \<^item> a Python exception (\<open>ZeroDivisionError\<close> of \<open>/\<close>, \<open>ValueError\<close> of \<open>math.sqrt\<close> on a
    negative number and of \<open>np.ones\<close> on a negative size, \<open>IndexError\<close> of \<open>a[0]\<close> on an empty
    array) is the \<open>Inl\<close> branch of a sum;
  \<^item> numpy does not raise on a division by zero: it returns \<open>inf\<close>, \<open>-inf\<close> or \<open>nan\<close>.
    Such a result is the value \<open>NonFinite\<close>.
\<close>

datatype py_error = ZeroDivisionError | ValueError | IndexError

datatype np_float = Finite real | NonFinite

subsection \<open>constants.py\<close>

definition ELEC_DISTANCES :: "nat list" where
  "ELEC_DISTANCES = map (\<lambda>x. 5 * x) [1..<11]"

definition NUM_PEOPLE_PER_HH :: real where
  "NUM_PEOPLE_PER_HH = 5.0"

definition LHV_DIESEL :: real where
  "LHV_DIESEL = 9.9445485"

definition HOURS_PER_YEAR :: real where
  "HOURS_PER_YEAR = 8760"

definition GRID :: string where "GRID = ''grid''"
definition MG_HYDRO :: string where "MG_HYDRO = ''mg_hydro''"
definition MG_PV_LOW :: string where "MG_PV_LOW = ''mg_pv1750''"
definition MG_PV_HIGH :: string where "MG_PV_HIGH = ''mg_pv2250''"
definition MG_WIND_LOW :: string where "MG_WIND_LOW = ''mg_wind0.2''"
definition MG_WIND_MID :: string where "MG_WIND_MID = ''mg_wind0.3''"
definition MG_WIND_HIGH :: string where "MG_WIND_HIGH = ''mg_wind0.4''"
definition MG_DIESEL :: string where "MG_DIESEL = ''mg_diesel''"
definition SA_DIESEL :: string where "SA_DIESEL = ''sa_diesel''"
definition SA_PV_LOW :: string where "SA_PV_LOW = ''sa_pv1750''"
definition SA_PV_HIGH :: string where "SA_PV_HIGH = ''sa_pv2250''"

subsection \<open>calc_lcoe: the arguments\<close>

text \<open>
  The keyword arguments of \<open>calc_lcoe\<close>, as a record. \<open>calc_lcoe_args\<close> takes the seven
  required arguments and gives the others the defaults of the signature; a call site
  overrides them with a record update.
\<close>

record lcoe_args =
  people :: real
  scenario :: real
  om_of_td_lines :: real
  distribution_losses :: real
  connection_cost_per_hh :: real
  base_to_peak_load_ratio :: real
  system_life :: int
  mv_line_length :: real
  om_costs :: real
  capital_cost :: real
  capacity_factor :: real
  efficiency :: real
  diesel_price :: real
  additional_mv_line_length :: real
  grid_price :: real
  grid :: bool
  diesel :: bool
  standalone :: bool

definition calc_lcoe_args :: "real \<Rightarrow> real \<Rightarrow> real \<Rightarrow> real \<Rightarrow> real \<Rightarrow> real \<Rightarrow> int \<Rightarrow> lcoe_args" where
  "calc_lcoe_args ppl scen om_td losses conn btp life =
     \<lparr> people = ppl, scenario = scen, om_of_td_lines = om_td, distribution_losses = losses,
       connection_cost_per_hh = conn, base_to_peak_load_ratio = btp, system_life = life,
       mv_line_length = 0, om_costs = 0.0, capital_cost = 0, capacity_factor = 1.0,
       efficiency = 1.0, diesel_price = 0, additional_mv_line_length = 0, grid_price = 0,
       grid = False, diesel = False, standalone = False \<rparr>"

subsection \<open>calc_lcoe: the local constants (lines 326 to 338)\<close>

definition grid_cell_area :: real where "grid_cell_area = 100"
definition mv_line_cost :: real where "mv_line_cost = 9000"
definition lv_line_cost :: real where "lv_line_cost = 5000"
definition discount_rate :: real where "discount_rate = 0.08"
definition mv_line_capacity :: real where "mv_line_capacity = 50"
definition lv_line_capacity :: real where "lv_line_capacity = 10"
definition lv_line_max_length :: real where "lv_line_max_length = 30"
definition hv_line_cost :: real where "hv_line_cost = 53000"
definition mv_line_max_length :: real where "mv_line_max_length = 50"
definition hv_lv_transformer_cost :: real where "hv_lv_transformer_cost = 5000"
definition mv_increase_rate :: real where "mv_increase_rate = 0.1"

text \<open>
  Python 3's \<open>round(x, n)\<close>: the nearest multiple of \<open>10^-n\<close>, a tie going to the even one.
\<close>

definition round_py :: "real \<Rightarrow> nat \<Rightarrow> real" where
  "round_py x n =
     (let y = x * 10 ^ n; f = \<lfloor>y\<rfloor>
      in (if y - of_int f < 1 / 2 then of_int f
          else if 1 / 2 < y - of_int f then of_int f + 1
          else if even f then of_int f else of_int f + 1) / 10 ^ n)"

subsection \<open>calc_lcoe: the network sizing (lines 340 to 359)\<close>

text \<open>
  The values of lines 340 to 359 that the rest of the function reads. \<open>households\<close> is the
  expression \<open>people / NUM_PEOPLE_PER_HH\<close> after \<open>people *= grid_cell_area\<close>, which the
  source writes out at each use.
\<close>

record sizing =
  households :: real
  average_load :: real
  peak_load :: real
  no_mv_lines :: int
  no_lv_lines :: int
  actual_lv_lines :: int
  total_lv_lines_length :: real
  total_length_of_lines :: real
  additional_hv_lines :: real
  hv_lines_total_length :: real
  num_transformers :: int
  generation_per_year :: real

definition network_sizing :: "lcoe_args \<Rightarrow> py_error + sizing" where
  "network_sizing a =
    (let people1 = people a * grid_cell_area;
         hh = people1 / NUM_PEOPLE_PER_HH;
         consumption = hh * scenario a;
         avg_load = consumption * (1 + distribution_losses a) / HOURS_PER_YEAR
     in if base_to_peak_load_ratio a = 0 then Inl ZeroDivisionError else
    (let pk_load = avg_load / base_to_peak_load_ratio a;
         n_mv = \<lceil>pk_load / mv_line_capacity\<rceil>;
         n_lv = \<lceil>pk_load / lv_line_capacity\<rceil>
     in if n_mv = 0 then Inl ZeroDivisionError else
    (let lv_networks_lim_capacity = of_int n_lv / of_int n_mv;
         lv_networks_lim_length =
           ((grid_cell_area / of_int n_mv) / (lv_line_max_length / sqrt 2)) ^ 2;
         act_lv = \<lceil>min hh (max lv_networks_lim_capacity lv_networks_lim_length)\<rceil>
     in if act_lv * n_mv = 0 then Inl ZeroDivisionError else
    (let hh_per_lv_network = hh / of_int (act_lv * n_mv)
     in if hh = 0 then Inl ZeroDivisionError
        else if grid_cell_area / hh < 0 then Inl ValueError else
    (let lv_unit_length = sqrt (grid_cell_area / hh) * sqrt 2 / 2;
         lv_lines_length_per_lv_network = 1.333 * hh_per_lv_network * lv_unit_length;
         total_lv = of_int n_mv * of_int act_lv * lv_lines_length_per_lv_network
     in if n_lv = 0 then Inl ZeroDivisionError
        else if grid_cell_area / of_int n_lv < 0 then Inl ValueError else
    (let line_reach = (grid_cell_area / of_int n_mv) / (2 * sqrt (grid_cell_area / of_int n_lv));
         total_len = min line_reach mv_line_max_length * of_int n_mv
     in if 2 * min line_reach mv_line_max_length = 0 then Inl ZeroDivisionError else
    (let add_hv = max 0 (round_py (sqrt grid_cell_area
                                     / (2 * min line_reach mv_line_max_length) / 10) 3 - 1);
         hv_total = (sqrt grid_cell_area / 2) * add_hv * sqrt grid_cell_area;
         n_transformers = \<lceil>add_hv + of_int n_mv + of_int (n_mv * act_lv)\<rceil>
     in Inr \<lparr> households = hh, average_load = avg_load, peak_load = pk_load,
              no_mv_lines = n_mv, no_lv_lines = n_lv, actual_lv_lines = act_lv,
              total_lv_lines_length = total_lv, total_length_of_lines = total_len,
              additional_hv_lines = add_hv, hv_lines_total_length = hv_total,
              num_transformers = n_transformers,
              generation_per_year = avg_load * HOURS_PER_YEAR \<rparr>)))))))"

subsection \<open>calc_lcoe: investment, O&M and fuel costs (lines 361 to 392)\<close>

record costs =
  td_investment_cost :: real
  total_investment_cost :: real
  total_om_cost :: real
  fuel_cost :: real

definition calc_fuel_cost :: "lcoe_args \<Rightarrow> py_error + real" where
  "calc_fuel_cost a =
     (if diesel a then
        (if efficiency a = 0 then Inl ZeroDivisionError
         else Inr (diesel_price a / efficiency a))
      else if grid a then Inr (grid_price a)
      else Inr 0)"

definition calc_costs :: "lcoe_args \<Rightarrow> sizing \<Rightarrow> py_error + costs" where
  "calc_costs a s =
    (if grid a then
       (let td_inv = hv_lines_total_length s * hv_line_cost
                   + total_length_of_lines s * mv_line_cost
                   + total_lv_lines_length s * lv_line_cost
                   + of_int (num_transformers s) * hv_lv_transformer_cost
                   + households s * connection_cost_per_hh a
                   + additional_mv_line_length a
                     * (mv_line_cost
                        * (1 + mv_increase_rate) powr ((additional_mv_line_length a / 5) - 1));
            td_om = td_inv * om_of_td_lines a
        in case calc_fuel_cost a of
             Inl e \<Rightarrow> Inl e
           | Inr fuel \<Rightarrow> Inr \<lparr> td_investment_cost = td_inv, total_investment_cost = td_inv,
                              total_om_cost = td_om, fuel_cost = fuel \<rparr>)
     else
       (let total_lv = total_lv_lines_length s * (if standalone a then 0 else 0.75);
            mv_total_line_cost = mv_line_cost * mv_line_length a;
            lv_total_line_cost = lv_line_cost * total_lv
        in if capacity_factor a = 0 then Inl ZeroDivisionError else
       (let installed_capacity = peak_load s / capacity_factor a;
            capital_investment = installed_capacity * capital_cost a;
            td_inv = mv_total_line_cost + lv_total_line_cost
                     + households s * connection_cost_per_hh a;
            td_om = td_inv * om_of_td_lines a
        in case calc_fuel_cost a of
             Inl e \<Rightarrow> Inl e
           | Inr fuel \<Rightarrow> Inr \<lparr> td_investment_cost = td_inv,
                              total_investment_cost = td_inv + capital_investment,
                              total_om_cost = td_om + capital_cost a * om_costs a * installed_capacity,
                              fuel_cost = fuel \<rparr>)))"

subsection \<open>calc_lcoe: the time value calculation (lines 394 to 408)\<close>

text \<open>
  A numpy array is a list; \<open>+\<close>, \<open>*\<close> and \<open>/\<close> on arrays of one length work element by
  element, and \<open>np.sum\<close> is \<open>sum_list\<close>. \<open>np.ones\<close> raises on a negative size, and the
  assignment \<open>el_gen[0] = 0\<close> raises on an empty array. The last division is numpy's.
\<close>

definition np_divide :: "real \<Rightarrow> real \<Rightarrow> np_float" where
  "np_divide x y = (if y = 0 then NonFinite else Finite (x / y))"

definition time_value_lcoe :: "int \<Rightarrow> real \<Rightarrow> costs \<Rightarrow> py_error + np_float" where
  "time_value_lcoe life gen c =
    (if life + 1 < 0 then Inl ValueError
     else if life + 1 = 0 then Inl IndexError
     else
       (let n = nat (life + 1);
            year = [0..<n];
            el_gen = (replicate n gen)[0 := 0];
            discount_factor = map (\<lambda>y. (1 + discount_rate) ^ y) year;
            it = (replicate n 0)[0 := total_investment_cost c];
            mt = (replicate n (total_om_cost c))[0 := 0];
            ft = (map (\<lambda>g. g * fuel_cost c) el_gen)[0 := 0];
            discounted_costs = map2 (/) (map2 (+) (map2 (+) it mt) ft) discount_factor;
            discounted_generation = map2 (/) el_gen discount_factor
        in Inr (np_divide (sum_list discounted_costs) (sum_list discounted_generation))))"

definition calc_lcoe :: "lcoe_args \<Rightarrow> py_error + np_float" where
  "calc_lcoe a =
     (case network_sizing a of
        Inl e \<Rightarrow> Inl e
      | Inr s \<Rightarrow>
          (case calc_costs a s of
             Inl e \<Rightarrow> Inl e
           | Inr c \<Rightarrow> time_value_lcoe (system_life a) (generation_per_year s) c))"

subsection \<open>get_lcoes (lines 114 to 295)\<close>

text \<open>
  The row of the specs table that \<open>get_lcoes\<close> reads, after \<open>float(...)\<close>. A row with a
  missing or non-numeric field is outside the model.
\<close>

record country_specs =
  Country :: string
  GridPrice :: real
  GridLosses :: real
  BaseToPeak :: real
  DieselPriceLow :: real

text \<open>
  Each call of \<open>calc_lcoe\<close> in \<open>get_lcoes\<close> is written as its argument record: the list
  comprehension over \<open>ELEC_DISTANCES\<close> is \<open>grid_calls\<close>, and the assignments
  \<open>lcoes[KEY] = calc_lcoe(...)\<close> that follow it are \<open>tech_calls\<close>, in the order of the
  source. \<open>get_lcoes\<close> runs the calls in that order and stops at the first one that raises.
\<close>

definition grid_calls :: "real \<Rightarrow> real \<Rightarrow> real \<Rightarrow> real \<Rightarrow> real \<Rightarrow> real \<Rightarrow> lcoe_args list" where
  "grid_calls ppl scen om_td transmission_losses btp gp =
     map (\<lambda>d. (calc_lcoe_args ppl scen om_td transmission_losses 125 btp 30)
                 \<lparr> additional_mv_line_length := real d, grid_price := gp, grid := True \<rparr>)
         ELEC_DISTANCES"

definition tech_calls :: "real \<Rightarrow> real \<Rightarrow> real \<Rightarrow> real \<Rightarrow> bool \<Rightarrow> (string \<times> lcoe_args) list" where
  "tech_calls ppl scen om_td dp calc_cap_only =
     [(MG_HYDRO, (calc_lcoe_args ppl scen om_td 0.05 100 1.0 30)
         \<lparr> capacity_factor := 0.5, capital_cost := 5000,
           om_costs := (if calc_cap_only then 0 else 0.02), mv_line_length := 5 \<rparr>),
      (MG_PV_LOW, (calc_lcoe_args ppl scen om_td 0.05 100 0.9 20)
         \<lparr> capacity_factor := 1750.0 / HOURS_PER_YEAR, capital_cost := 4300,
           om_costs := (if calc_cap_only then 0 else 0.02) \<rparr>),
      (MG_PV_HIGH, (calc_lcoe_args ppl scen om_td 0.05 100 0.9 20)
         \<lparr> capacity_factor := 2250 / HOURS_PER_YEAR, capital_cost := 4300,
           om_costs := (if calc_cap_only then 0 else 0.02) \<rparr>),
      (MG_WIND_LOW, (calc_lcoe_args ppl scen om_td 0.05 100 0.75 20)
         \<lparr> capacity_factor := 0.2, capital_cost := 3000,
           om_costs := (if calc_cap_only then 0 else 0.02) \<rparr>),
      (MG_WIND_MID, (calc_lcoe_args ppl scen om_td 0.05 100 0.75 20)
         \<lparr> capacity_factor := 0.3, capital_cost := 3000,
           om_costs := (if calc_cap_only then 0 else 0.02) \<rparr>),
      (MG_WIND_HIGH, (calc_lcoe_args ppl scen om_td 0.05 100 0.75 20)
         \<lparr> capacity_factor := 0.4, capital_cost := 3000,
           om_costs := (if calc_cap_only then 0 else 0.02) \<rparr>),
      (MG_DIESEL, (calc_lcoe_args ppl scen om_td 0.05 100 0.5 15)
         \<lparr> capacity_factor := 0.7, capital_cost := 721,
           om_costs := (if calc_cap_only then 0 else 0.1),
           efficiency := 0.33, diesel_price := dp, diesel := True \<rparr>),
      (SA_DIESEL, (calc_lcoe_args ppl scen 0 0 100 0.5 15)
         \<lparr> capacity_factor := 0.7, capital_cost := 721,
           om_costs := (if calc_cap_only then 0 else 0.1),
           efficiency := 0.33, diesel_price := dp, diesel := True, standalone := True \<rparr>),
      (SA_PV_LOW, (calc_lcoe_args ppl scen 0 0 100 0.9 20)
         \<lparr> capacity_factor := 1750 / HOURS_PER_YEAR, capital_cost := 4300,
           om_costs := (if calc_cap_only then 0 else 0.02), standalone := True \<rparr>),
      (SA_PV_HIGH, (calc_lcoe_args ppl scen 0 0 100 0.9 20)
         \<lparr> capacity_factor := 2250 / HOURS_PER_YEAR, capital_cost := 4300,
           om_costs := (if calc_cap_only then 0 else 0.02), standalone := True \<rparr>)]"

fun calc_all :: "lcoe_args list \<Rightarrow> py_error + np_float list" where
  "calc_all [] = Inr []"
| "calc_all (a # as) =
     (case calc_lcoe a of
        Inl e \<Rightarrow> Inl e
      | Inr v \<Rightarrow> (case calc_all as of Inl e \<Rightarrow> Inl e | Inr vs \<Rightarrow> Inr (v # vs)))"

fun calc_each :: "(string \<times> lcoe_args) list \<Rightarrow> py_error + (string \<times> np_float) list" where
  "calc_each [] = Inr []"
| "calc_each ((k, a) # cs) =
     (case calc_lcoe a of
        Inl e \<Rightarrow> Inl e
      | Inr v \<Rightarrow> (case calc_each cs of Inl e \<Rightarrow> Inl e | Inr kvs \<Rightarrow> Inr ((k, v) # kvs)))"

text \<open>The values of the returned dictionary: a list for the grid, a number for the others.\<close>

datatype lcoe_value = Seq "np_float list" | Scalar np_float

definition get_lcoes ::
  "country_specs \<Rightarrow> real \<Rightarrow> real \<Rightarrow> bool \<Rightarrow> py_error + (string \<rightharpoonup> lcoe_value)" where
  "get_lcoes specs ppl scen calc_cap_only =
    (let transmission_losses = GridLosses specs;
         btp = BaseToPeak specs;
         gp = (if calc_cap_only then 0 else GridPrice specs);
         dp = (if calc_cap_only then 0 else DieselPriceLow specs / LHV_DIESEL);
         om_td = (if calc_cap_only then 0 else 0.03)
     in case calc_all (grid_calls ppl scen om_td transmission_losses btp gp) of
          Inl e \<Rightarrow> Inl e
        | Inr g \<Rightarrow>
            (case calc_each (tech_calls ppl scen om_td dp calc_cap_only) of
               Inl e \<Rightarrow> Inl e
             | Inr kvs \<Rightarrow>
                 Inr (fold (\<lambda>(k, v) lcoes. lcoes(k \<mapsto> Scalar v)) kvs [GRID \<mapsto> Seq g])))"

subsection \<open>make_tables: the grid viability search (lines 91 to 107)\<close>

definition people_arr :: "nat list" where
  "people_arr = map (\<lambda>x. 10 * x) [1..<401]"

definition techs :: "string list" where
  "techs = [MG_HYDRO, MG_PV_LOW, MG_PV_HIGH, MG_WIND_LOW, MG_WIND_MID,
            MG_WIND_HIGH, MG_DIESEL, SA_DIESEL, SA_PV_LOW, SA_PV_HIGH]"

text \<open>
  The two panels the search reads, \<open>tech_lcoes[country][people][tech]\<close> and
  \<open>grid_lcoes[country][people][distance]\<close>, are functions of their three keys, and so is
  the data frame \<open>num_people_for_grid[country][distance]\<close> that it fills, every cell
  of which starts at \<open>1e9\<close>. \<open>people_loop\<close> is the innermost loop: it leaves at its
  \<open>break\<close>.
\<close>

type_synonym tech_panel = "string \<Rightarrow> nat \<Rightarrow> string \<Rightarrow> real"
type_synonym grid_panel = "string \<Rightarrow> nat \<Rightarrow> nat \<Rightarrow> real"
type_synonym people_frame = "string \<Rightarrow> nat \<Rightarrow> real"

definition min_lcoe_techs :: "(string \<Rightarrow> real) \<Rightarrow> real" where
  "min_lcoe_techs lcoes =
     min (lcoes MG_DIESEL)
         (min (lcoes MG_WIND_MID)
              (min ((lcoes SA_PV_LOW + lcoes SA_PV_HIGH) / 2)
                   (lcoes MG_HYDRO)))"

fun people_loop ::
  "tech_panel \<Rightarrow> grid_panel \<Rightarrow> string \<Rightarrow> nat \<Rightarrow> nat list \<Rightarrow> people_frame \<Rightarrow> people_frame" where
  "people_loop tech_lcoes grid_lcoes country d [] frame = frame"
| "people_loop tech_lcoes grid_lcoes country d (ppl # rest) frame =
     (if grid_lcoes country ppl d < min_lcoe_techs (tech_lcoes country ppl)
      then frame(country := (frame country)(d := real ppl))
      else people_loop tech_lcoes grid_lcoes country d rest frame)"

definition num_people_for_grid :: "tech_panel \<Rightarrow> grid_panel \<Rightarrow> string list \<Rightarrow> people_frame" where
  "num_people_for_grid tech_lcoes grid_lcoes countries =
     fold (\<lambda>country frame.
             fold (\<lambda>d frame1. people_loop tech_lcoes grid_lcoes country d people_arr frame1)
                  ELEC_DISTANCES frame)
          countries (\<lambda>country d. 1000000000)"

section \<open>Properties\<close>

subsection \<open>The network sizing returns on positive loads\<close>

lemma network_sizing_ok:
  assumes ppl: "0 < people a" and scen: "0 < scenario a"
    and btp: "0 < base_to_peak_load_ratio a" and dl: "- 1 < distribution_losses a"
  shows "\<exists>s. network_sizing a = Inr s
           \<and> households s = people a * grid_cell_area / NUM_PEOPLE_PER_HH
           \<and> average_load s = households s * scenario a * (1 + distribution_losses a) / HOURS_PER_YEAR
           \<and> peak_load s = average_load s / base_to_peak_load_ratio a
           \<and> generation_per_year s = average_load s * HOURS_PER_YEAR
           \<and> 0 < households s \<and> 0 < average_load s \<and> 0 < peak_load s
           \<and> 0 < total_lv_lines_length s \<and> 0 < total_length_of_lines s
           \<and> 0 \<le> hv_lines_total_length s \<and> 0 < num_transformers s"
proof -
  define hh where "hh = people a * grid_cell_area / NUM_PEOPLE_PER_HH"
  define avg where "avg = hh * scenario a * (1 + distribution_losses a) / HOURS_PER_YEAR"
  define pk where "pk = avg / base_to_peak_load_ratio a"
  define n_mv where "n_mv = \<lceil>pk / mv_line_capacity\<rceil>"
  define n_lv where "n_lv = \<lceil>pk / lv_line_capacity\<rceil>"
  define lim_cap :: real where "lim_cap = of_int n_lv / of_int n_mv"
  define lim_len where
    "lim_len = ((grid_cell_area / of_int n_mv) / (lv_line_max_length / sqrt 2)) ^ 2"
  define act where "act = \<lceil>min hh (max lim_cap lim_len)\<rceil>"
  define per_net where
    "per_net = 1.333 * (hh / of_int (act * n_mv)) * (sqrt (grid_cell_area / hh) * sqrt 2 / 2)"
  define reach where
    "reach = (grid_cell_area / of_int n_mv) / (2 * sqrt (grid_cell_area / of_int n_lv))"
  define add_hv where
    "add_hv = max 0 (round_py (sqrt grid_cell_area / (2 * min reach mv_line_max_length) / 10) 3 - 1)"
  have hh_pos: "0 < hh"
    using ppl by (simp add: hh_def grid_cell_area_def NUM_PEOPLE_PER_HH_def)
  have avg_pos: "0 < avg"
    using hh_pos scen dl by (simp add: avg_def HOURS_PER_YEAR_def)
  have pk_pos: "0 < pk"
    using avg_pos btp by (simp add: pk_def)
  have n_mv_pos: "0 < n_mv"
    using pk_pos by (simp add: n_mv_def mv_line_capacity_def)
  have n_lv_pos: "0 < n_lv"
    using pk_pos by (simp add: n_lv_def lv_line_capacity_def)
  have lim_cap_pos: "0 < lim_cap"
    using n_mv_pos n_lv_pos by (simp add: lim_cap_def)
  have "0 < min hh (max lim_cap lim_len)"
    using hh_pos lim_cap_pos by (simp add: min_def max_def)
  then have act_pos: "0 < act"
    by (simp add: act_def)
  have area_hh: "0 < grid_cell_area / hh"
    using hh_pos by (simp add: grid_cell_area_def)
  have ratio_pos: "0 < hh / real_of_int (act * n_mv)"
    using hh_pos act_pos n_mv_pos by (intro divide_pos_pos) simp_all
  have unit_pos: "0 < sqrt (grid_cell_area / hh) * sqrt 2 / 2"
    using area_hh by simp
  have per_net_pos: "0 < per_net"
    unfolding per_net_def using ratio_pos unit_pos by (intro mult_pos_pos) simp_all
  have area_lv: "0 < grid_cell_area / real_of_int n_lv"
    using n_lv_pos by (simp add: grid_cell_area_def)
  have reach_pos: "0 < reach"
    using n_mv_pos area_lv by (simp add: reach_def grid_cell_area_def)
  have min_pos: "0 < min reach mv_line_max_length"
    using reach_pos by (simp add: mv_line_max_length_def)
  have add_hv_nonneg: "0 \<le> add_hv"
    by (simp add: add_hv_def)
  have nz: "base_to_peak_load_ratio a \<noteq> 0" "n_mv \<noteq> 0" "act \<noteq> 0" "hh \<noteq> 0"
    "\<not> grid_cell_area / hh < 0" "n_lv \<noteq> 0" "\<not> grid_cell_area / real_of_int n_lv < 0"
    "min reach mv_line_max_length \<noteq> 0"
    using btp n_mv_pos n_lv_pos act_pos hh_pos area_hh area_lv min_pos by linarith+
  have sizing_eq: "network_sizing a =
      Inr \<lparr> households = hh, average_load = avg, peak_load = pk,
            no_mv_lines = n_mv, no_lv_lines = n_lv, actual_lv_lines = act,
            total_lv_lines_length = of_int n_mv * of_int act * per_net,
            total_length_of_lines = min reach mv_line_max_length * of_int n_mv,
            additional_hv_lines = add_hv,
            hv_lines_total_length = (sqrt grid_cell_area / 2) * add_hv * sqrt grid_cell_area,
            num_transformers = \<lceil>add_hv + of_int n_mv + of_int (n_mv * act)\<rceil>,
            generation_per_year = avg * HOURS_PER_YEAR \<rparr>"
    unfolding network_sizing_def Let_def
    unfolding hh_def [symmetric]
    unfolding avg_def [symmetric]
    unfolding pk_def [symmetric]
    unfolding n_mv_def [symmetric] n_lv_def [symmetric]
    unfolding lim_cap_def [symmetric] lim_len_def [symmetric]
    unfolding act_def [symmetric]
    unfolding per_net_def [symmetric]
    unfolding reach_def [symmetric]
    unfolding add_hv_def [symmetric]
    using nz by simp
  have lv_pos: "0 < real_of_int n_mv * real_of_int act * per_net"
    using n_mv_pos act_pos per_net_pos by simp
  have len_pos: "0 < min reach mv_line_max_length * real_of_int n_mv"
    using min_pos n_mv_pos by simp
  have hv_nonneg: "0 \<le> (sqrt grid_cell_area / 2) * add_hv * sqrt grid_cell_area"
    using add_hv_nonneg by (simp add: grid_cell_area_def)
  have "0 < real_of_int n_mv" "0 \<le> real_of_int (n_mv * act)"
    using n_mv_pos act_pos by simp_all
  then have "0 < add_hv + of_int n_mv + real_of_int (n_mv * act)"
    using add_hv_nonneg by linarith
  then have tr_pos: "0 < \<lceil>add_hv + of_int n_mv + real_of_int (n_mv * act)\<rceil>"
    by simp
  show ?thesis
    using sizing_eq hh_pos avg_pos pk_pos lv_pos len_pos hv_nonneg tr_pos
    by (simp add: hh_def avg_def pk_def)
qed

text \<open>
  Conversely, the sizing only returns when the peak load is positive: with a positive
  base-to-peak ratio the yearly generation is then positive too.
\<close>

lemma network_sizing_generation_pos:
  assumes ok: "network_sizing a = Inr s" and btp: "0 < base_to_peak_load_ratio a"
  shows "0 < generation_per_year s"
proof -
  define avg where
    "avg = people a * grid_cell_area / NUM_PEOPLE_PER_HH * scenario a
             * (1 + distribution_losses a) / HOURS_PER_YEAR"
  define n_lv where "n_lv = \<lceil>avg / base_to_peak_load_ratio a / lv_line_capacity\<rceil>"
  have gen: "generation_per_year s = avg * HOURS_PER_YEAR"
    using ok unfolding network_sizing_def Let_def avg_def [symmetric]
    by (auto split: if_splits)
  have "n_lv \<noteq> 0 \<and> \<not> grid_cell_area / of_int n_lv < 0"
    using ok unfolding network_sizing_def Let_def avg_def [symmetric] n_lv_def [symmetric]
    by (auto split: if_splits)
  then have "0 < n_lv"
    by (cases "n_lv < 0") (auto simp: grid_cell_area_def divide_less_0_iff)
  then have "0 < avg / base_to_peak_load_ratio a / lv_line_capacity"
    by (simp add: n_lv_def)
  then have "0 < avg"
    using btp by (simp add: lv_line_capacity_def zero_less_divide_iff)
  then show ?thesis
    by (simp add: gen HOURS_PER_YEAR_def)
qed

text \<open>The sizing reads four of the arguments only.\<close>

lemma network_sizing_cong:
  assumes "people a = people b" and "scenario a = scenario b"
    and "distribution_losses a = distribution_losses b"
    and "base_to_peak_load_ratio a = base_to_peak_load_ratio b"
  shows "network_sizing a = network_sizing b"
  unfolding network_sizing_def Let_def by (simp only: assms)

subsection \<open>The time value calculation in closed form\<close>

text \<open>The sum of the discount factors of the years 1 to \<open>m\<close>.\<close>

definition annuity :: "nat \<Rightarrow> real" where
  "annuity m = (\<Sum>y = 1..m. 1 / (1 + discount_rate) ^ y)"

lemma annuity_pos: "1 \<le> m \<Longrightarrow> 0 < annuity m"
  unfolding annuity_def
  by (intro sum_pos) (simp_all add: discount_rate_def)

lemma map2_replicate_left:
  "length xs = n \<Longrightarrow> map2 f (replicate n c) xs = map (f c) xs"
  by (induction xs arbitrary: n) auto

lemma sum_list_upt_scaled:
  "sum_list (map (\<lambda>y. c / (1 + discount_rate) ^ y) [1..<Suc m]) = c * annuity m"
proof -
  have "set [1..<Suc m] = {1..m}"
    by auto
  then have "sum_list (map (\<lambda>y. c / (1 + discount_rate) ^ y) [1..<Suc m])
      = (\<Sum>y = 1..m. c / (1 + discount_rate) ^ y)"
    by (simp only: interv_sum_list_conv_sum_set_nat)
  also have "\<dots> = c * annuity m"
    by (simp add: annuity_def sum_distrib_left)
  finally show ?thesis .
qed

lemma time_value_lcoe_sums:
  assumes life: "0 \<le> life"
  shows "time_value_lcoe life gen c =
     Inr (np_divide (total_investment_cost c
                      + (total_om_cost c + gen * fuel_cost c) * annuity (nat life))
                    (gen * annuity (nat life)))"
proof -
  define m where "m = nat life"
  define ys where "ys = [1..<Suc m]"
  define df where "df = map (\<lambda>y. (1 + discount_rate) ^ y) ys"
  have n: "nat (life + 1) = Suc m"
    using life by (simp add: m_def nat_add_distrib)
  have upt: "[0..<Suc m] = 0 # ys"
    unfolding ys_def by (simp only: upt_rec [of 0 "Suc m"]) simp
  have len: "length df = m"
    by (simp add: df_def ys_def)
  have scaled: "sum_list (map2 (/) (replicate m k) df) = k * annuity m" for k
  proof -
    have "map2 (/) (replicate m k) df = map ((/) k) df"
      by (rule map2_replicate_left [OF len])
    also have "\<dots> = map (\<lambda>y. k / (1 + discount_rate) ^ y) ys"
      by (simp add: df_def)
    finally show ?thesis
      unfolding ys_def by (simp only: sum_list_upt_scaled)
  qed
  note costs = scaled [of "total_om_cost c + gen * fuel_cost c"]
  note gens = scaled [of gen]
  have sum3: "map2 (+) (map2 (+) (replicate m 0) (replicate m (total_om_cost c)))
                       (replicate m (gen * fuel_cost c))
             = replicate m (total_om_cost c + gen * fuel_cost c)"
    by simp
  have "time_value_lcoe life gen c =
     Inr (np_divide (total_investment_cost c
            + sum_list (map2 (/) (replicate m (total_om_cost c + gen * fuel_cost c)) df))
          (sum_list (map2 (/) (replicate m gen) df)))"
    using life
    unfolding time_value_lcoe_def Let_def n upt
    by (simp add: sum3 df_def)
  then show ?thesis
    unfolding m_def by (simp only: costs [unfolded m_def] gens [unfolded m_def])
qed

text \<open>
  The ratio of the specification: the costs and the generation of the years 0 to \<open>L\<close>,
  each divided by \<open>(1 + discount_rate) ^ y\<close>, summed and divided. Year 0 carries the
  investment and no generation; every later year carries the O&M cost, the fuel price
  times the generation, and the generation.
\<close>

definition spec_dcf_ratio :: "nat \<Rightarrow> real \<Rightarrow> real \<Rightarrow> real \<Rightarrow> real \<Rightarrow> real" where
  "spec_dcf_ratio L investment om fuel_price gen =
     (\<Sum>y = 0..L. (if y = 0 then investment else om + fuel_price * gen) / (1 + discount_rate) ^ y)
     / (\<Sum>y = 0..L. (if y = 0 then 0 else gen) / (1 + discount_rate) ^ y)"

lemma spec_dcf_ratio_closed:
  "spec_dcf_ratio L investment om fuel_price gen =
     (investment + (om + gen * fuel_price) * annuity L) / (gen * annuity L)"
proof -
  have split: "(\<Sum>y = 0..L. (if y = 0 then u else v) / (1 + discount_rate) ^ y)
             = u + v * annuity L" for u v :: real
  proof -
    have "(\<Sum>y = 0..L. (if y = 0 then u else v) / (1 + discount_rate) ^ y)
        = u + (\<Sum>y = Suc 0..L. (if y = 0 then u else v) / (1 + discount_rate) ^ y)"
      by (simp add: sum.atLeast_Suc_atMost)
    also have "(\<Sum>y = Suc 0..L. (if y = 0 then u else v) / (1 + discount_rate) ^ y)
        = (\<Sum>y = Suc 0..L. v / (1 + discount_rate) ^ y)"
      by (rule sum.cong) auto
    also have "\<dots> = v * annuity L"
      by (simp add: annuity_def sum_distrib_left)
    finally show ?thesis .
  qed
  show ?thesis
    unfolding spec_dcf_ratio_def split by (simp add: mult.commute)
qed

lemma time_value_lcoe_finite:
  assumes life: "1 \<le> life" and gen: "0 < gen"
  shows "time_value_lcoe life gen c =
     Inr (Finite ((total_investment_cost c
                    + (total_om_cost c + gen * fuel_cost c) * annuity (nat life))
                  / (gen * annuity (nat life))))"
proof -
  have "0 < annuity (nat life)"
    using life by (intro annuity_pos) simp
  then have "gen * annuity (nat life) \<noteq> 0"
    using gen by simp
  moreover have "0 \<le> life"
    using life by simp
  ultimately show ?thesis
    by (simp add: time_value_lcoe_sums np_divide_def)
qed

subsection \<open>calc_lcoe on valid arguments\<close>

text \<open>
  The arguments on which no step of \<open>calc_lcoe\<close> divides by zero: positive people,
  scenario and base-to-peak ratio, distribution losses above \<open>-1\<close>, a system life of a year
  or more, a capacity factor other than zero off the grid, and an efficiency other than zero
  for diesel.
\<close>

definition valid_args :: "lcoe_args \<Rightarrow> bool" where
  "valid_args a \<longleftrightarrow>
     0 < people a \<and> 0 < scenario a \<and> 0 < base_to_peak_load_ratio a
     \<and> - 1 < distribution_losses a \<and> 1 \<le> system_life a
     \<and> (grid a \<or> capacity_factor a \<noteq> 0) \<and> (diesel a \<longrightarrow> efficiency a \<noteq> 0)"

lemma calc_costs_ok:
  assumes "grid a \<or> capacity_factor a \<noteq> 0" and "diesel a \<longrightarrow> efficiency a \<noteq> 0"
  shows "\<exists>c. calc_costs a s = Inr c"
  using assms by (auto simp: calc_costs_def calc_fuel_cost_def Let_def)

lemma calc_lcoe_closed:
  assumes s: "network_sizing a = Inr s" and c: "calc_costs a s = Inr c"
    and btp: "0 < base_to_peak_load_ratio a" and life: "1 \<le> system_life a"
  shows "calc_lcoe a =
     Inr (Finite ((total_investment_cost c
                    + (total_om_cost c + generation_per_year s * fuel_cost c)
                      * annuity (nat (system_life a)))
                  / (generation_per_year s * annuity (nat (system_life a)))))"
  using network_sizing_generation_pos [OF s btp] life
  by (simp add: calc_lcoe_def s c time_value_lcoe_finite)

lemma calc_lcoe_returns:
  assumes "valid_args a"
  shows "\<exists>s c v. network_sizing a = Inr s \<and> calc_costs a s = Inr c
            \<and> calc_lcoe a = Inr (Finite v)"
proof -
  from assms obtain s where s: "network_sizing a = Inr s"
    using network_sizing_ok [of a] by (auto simp: valid_args_def)
  from assms obtain c where c: "calc_costs a s = Inr c"
    using calc_costs_ok [of a s] by (auto simp: valid_args_def)
  from assms have "0 < base_to_peak_load_ratio a" "1 \<le> system_life a"
    by (simp_all add: valid_args_def)
  from calc_lcoe_closed [OF s c this] s c show ?thesis
    by blast
qed

subsection \<open>C1: the discounted cash flow\<close>

definition c1_args :: lcoe_args where
  "c1_args = (calc_lcoe_args 10 1000 0.03 0.05 100 0.75 20)
               \<lparr> capacity_factor := 0.3, capital_cost := 3000, om_costs := 0.02 \<rparr>"

definition c1_no_load :: lcoe_args where
  "c1_no_load = (calc_lcoe_args 10 1000 0.03 (- 1) 100 0.75 20)
                  \<lparr> capacity_factor := 0.3, capital_cost := 3000, om_costs := 0.02 \<rparr>"

definition c1_negative_load :: lcoe_args where
  "c1_negative_load = (calc_lcoe_args 10 1000 0.03 (- 2) 100 0.75 20)
                        \<lparr> capacity_factor := 0.3, capital_cost := 3000, om_costs := 0.02 \<rparr>"

definition c1_no_efficiency :: lcoe_args where
  "c1_no_efficiency = (calc_lcoe_args 10 1000 0.03 0.05 100 0.5 15)
                        \<lparr> capacity_factor := 0.7, capital_cost := 721, om_costs := 0.1,
                          efficiency := 0, diesel_price := 0.1, diesel := True \<rparr>"

text \<open>
  C1 fails as worded: its conditions leave the distribution losses and the efficiency
  free. With losses of \<open>-1\<close> the load is zero, \<open>no_mv_lines\<close> is 0 and line 346 divides by
  it; with losses of \<open>-2\<close> the load is negative and the same line raises; with
  \<open>diesel=True\<close> and an efficiency of 0, line 388 divides by zero. In each case the input
  meets every condition that C1 lists, and \<open>calc_lcoe\<close> raises and returns no ratio.
\<close>

theorem calc_lcoe_discounted_cash_flow_counterexample:
  "list_all (\<lambda>a. 0 < people a \<and> 0 < scenario a \<and> 1 \<le> system_life a
                \<and> 0 < base_to_peak_load_ratio a \<and> base_to_peak_load_ratio a \<le> 1
                \<and> 0 < capacity_factor a \<and> capacity_factor a \<le> 1
                \<and> calc_lcoe a = Inl ZeroDivisionError)
     [c1_no_load, c1_negative_load, c1_no_efficiency]"
proof -
  have 1: "calc_lcoe c1_no_load = Inl ZeroDivisionError"
    by (simp add: calc_lcoe_def network_sizing_def c1_no_load_def calc_lcoe_args_def)
  have "\<lceil>people c1_negative_load * grid_cell_area / NUM_PEOPLE_PER_HH
           * scenario c1_negative_load * (1 + distribution_losses c1_negative_load)
           / HOURS_PER_YEAR / base_to_peak_load_ratio c1_negative_load / mv_line_capacity\<rceil> = 0"
    by (simp add: c1_negative_load_def calc_lcoe_args_def grid_cell_area_def
          NUM_PEOPLE_PER_HH_def HOURS_PER_YEAR_def mv_line_capacity_def ceiling_eq_iff)
  then have 2: "calc_lcoe c1_negative_load = Inl ZeroDivisionError"
    by (simp add: calc_lcoe_def network_sizing_def Let_def c1_negative_load_def
          calc_lcoe_args_def)
  have "0 < people c1_no_efficiency" "0 < scenario c1_no_efficiency"
    "0 < base_to_peak_load_ratio c1_no_efficiency" "- 1 < distribution_losses c1_no_efficiency"
    by (simp_all add: c1_no_efficiency_def calc_lcoe_args_def)
  from network_sizing_ok [OF this] obtain s where "network_sizing c1_no_efficiency = Inr s"
    by blast
  then have 3: "calc_lcoe c1_no_efficiency = Inl ZeroDivisionError"
    by (simp add: calc_lcoe_def calc_costs_def calc_fuel_cost_def c1_no_efficiency_def
          calc_lcoe_args_def)
  have "0 < people a \<and> 0 < scenario a \<and> 1 \<le> system_life a
          \<and> 0 < base_to_peak_load_ratio a \<and> base_to_peak_load_ratio a \<le> 1
          \<and> 0 < capacity_factor a \<and> capacity_factor a \<le> 1"
    if "a \<in> {c1_no_load, c1_negative_load, c1_no_efficiency}" for a
    using that
    by (auto simp: c1_no_load_def c1_negative_load_def c1_no_efficiency_def calc_lcoe_args_def)
  with 1 2 3 show ?thesis
    by simp
qed

text \<open>
  C1, amended. On an input that meets the conditions of C1 (positive people and scenario,
  a system life of a year or more, base-to-peak ratio and capacity factor in \<open>(0, 1]\<close>) and
  has, besides, distribution losses above \<open>-1\<close> and, for diesel, an efficiency other than
  zero, \<open>calc_lcoe\<close> returns a finite number, and that number is the ratio of the
  specification, with \<open>s\<close> the network sizing and \<open>c\<close> the investment, O&M and fuel costs
  that lines 340 to 392 compute: over the years 0 to \<open>system_life\<close>, year 0 carries the
  whole investment and no generation, O&M or fuel, every later year carries the same
  generation, the same O&M cost and the fuel price times the generation, each year is
  divided by \<open>(1 + 0.08) ^ y\<close>, and the sum of the costs is divided by the sum of the
  generation.
\<close>

theorem calc_lcoe_discounted_cash_flow:
  assumes "0 < people a" and "0 < scenario a" and "1 \<le> system_life a"
    and "0 < base_to_peak_load_ratio a" and "base_to_peak_load_ratio a \<le> 1"
    and "0 < capacity_factor a" and "capacity_factor a \<le> 1"
    and "- 1 < distribution_losses a" and "diesel a \<longrightarrow> efficiency a \<noteq> 0"
  shows "(\<exists>s c. network_sizing a = Inr s \<and> calc_costs a s = Inr c
            \<and> calc_lcoe a =
                Inr (Finite (spec_dcf_ratio (nat (system_life a)) (total_investment_cost c)
                               (total_om_cost c) (fuel_cost c) (generation_per_year s))))
         \<and> discount_rate = 0.08"
proof -
  have "valid_args a"
    using assms by (simp add: valid_args_def)
  from calc_lcoe_returns [OF this] obtain s c where s: "network_sizing a = Inr s"
    and c: "calc_costs a s = Inr c"
    by blast
  have "calc_lcoe a =
          Inr (Finite (spec_dcf_ratio (nat (system_life a)) (total_investment_cost c)
                         (total_om_cost c) (fuel_cost c) (generation_per_year s)))"
    using calc_lcoe_closed [OF s c assms(4) assms(3)]
    by (simp add: spec_dcf_ratio_closed)
  with s c show ?thesis
    by (auto simp: discount_rate_def)
qed

theorem calc_lcoe_discounted_cash_flow_witness:
  "\<exists>s c. network_sizing c1_args = Inr s \<and> calc_costs c1_args s = Inr c
     \<and> calc_lcoe c1_args =
         Inr (Finite (spec_dcf_ratio 20 (total_investment_cost c) (total_om_cost c)
                        (fuel_cost c) (generation_per_year s)))"
proof -
  have "0 < people c1_args" "0 < scenario c1_args" "1 \<le> system_life c1_args"
    "0 < base_to_peak_load_ratio c1_args" "base_to_peak_load_ratio c1_args \<le> 1"
    "0 < capacity_factor c1_args" "capacity_factor c1_args \<le> 1"
    "- 1 < distribution_losses c1_args" "diesel c1_args \<longrightarrow> efficiency c1_args \<noteq> 0"
    by (simp_all add: c1_args_def calc_lcoe_args_def)
  from calc_lcoe_discounted_cash_flow [OF this] show ?thesis
    by (simp add: c1_args_def calc_lcoe_args_def)
qed


subsection \<open>C8: the investment cost on the grid\<close>

definition c8_args :: lcoe_args where
  "c8_args = (calc_lcoe_args 1000 1000 0.03 0.08 125 0.8 30)
               \<lparr> additional_mv_line_length := 5, grid_price := 0.15, grid := True \<rparr>"

text \<open>
  C8. In grid mode the investment cost is the sum of the HV, MV and LV line costs, the
  transformer cost and the connection cost of every household, plus, for the additional
  distance \<open>d\<close> from the grid, \<open>d\<close> times the cost of a km of MV line (9000) times
  \<open>(1 + 0.1)\<close> to the power \<open>d / 5 - 1\<close>.
\<close>

theorem grid_investment_cost:
  assumes "grid a" and "network_sizing a = Inr s" and "calc_costs a s = Inr c"
  shows "total_investment_cost c =
           hv_lines_total_length s * hv_line_cost
           + total_length_of_lines s * mv_line_cost
           + total_lv_lines_length s * lv_line_cost
           + of_int (num_transformers s) * hv_lv_transformer_cost
           + households s * connection_cost_per_hh a
           + additional_mv_line_length a
             * (mv_line_cost * (1 + 0.1) powr (additional_mv_line_length a / 5 - 1))
         \<and> mv_line_cost = 9000"
  using assms
  by (auto simp: calc_costs_def Let_def mv_increase_rate_def mv_line_cost_def
           split: sum.splits)

theorem grid_investment_cost_witness:
  "\<exists>s c. network_sizing c8_args = Inr s \<and> calc_costs c8_args s = Inr c
     \<and> total_investment_cost c =
           hv_lines_total_length s * hv_line_cost
           + total_length_of_lines s * mv_line_cost
           + total_lv_lines_length s * lv_line_cost
           + of_int (num_transformers s) * hv_lv_transformer_cost
           + households s * 125
           + 5 * (mv_line_cost * (1 + 0.1) powr (5 / 5 - 1))"
proof -
  have g: "grid c8_args"
    by (simp add: c8_args_def)
  have "valid_args c8_args"
    by (simp add: valid_args_def c8_args_def calc_lcoe_args_def)
  then obtain s c where s: "network_sizing c8_args = Inr s"
    and c: "calc_costs c8_args s = Inr c"
    using calc_lcoe_returns by blast
  from grid_investment_cost [OF g s c] s c show ?thesis
    by (simp add: c8_args_def calc_lcoe_args_def)
qed

subsection \<open>C9: the investment cost off the grid\<close>

text \<open>
  The investment cost as the claim words it: the LV lines are charged on the total LV
  length less 25%, unless the technology is stand-alone, where the reduction does not apply.
\<close>

definition spec_non_grid_investment :: "lcoe_args \<Rightarrow> sizing \<Rightarrow> real" where
  "spec_non_grid_investment a s =
     mv_line_cost * mv_line_length a
     + lv_line_cost * (if standalone a then total_lv_lines_length s
                       else total_lv_lines_length s - 0.25 * total_lv_lines_length s)
     + households s * connection_cost_per_hh a
     + peak_load s / capacity_factor a * capital_cost a"

definition c9_args :: lcoe_args where
  "c9_args = (calc_lcoe_args 10 1000 0 0 100 0.9 20)
               \<lparr> capacity_factor := 0.2, capital_cost := 4300, om_costs := 0.02,
                 standalone := True \<rparr>"

definition c9_mg_args :: lcoe_args where
  "c9_mg_args = (calc_lcoe_args 10 1000 0.03 0.05 100 0.75 20)
                  \<lparr> capacity_factor := 0.3, capital_cost := 3000, om_costs := 0.02 \<rparr>"

text \<open>
  C9 fails as worded on a stand-alone technology: the code multiplies the LV length by 0
  there, so a stand-alone system pays for no LV line at all, while the length it would
  be charged on is positive.
\<close>

theorem non_grid_investment_counterexample:
  "\<exists>s c. network_sizing c9_args = Inr s \<and> calc_costs c9_args s = Inr c
     \<and> total_investment_cost c < spec_non_grid_investment c9_args s"
proof -
  have "0 < people c9_args" "0 < scenario c9_args" "0 < base_to_peak_load_ratio c9_args"
    "- 1 < distribution_losses c9_args"
    by (simp_all add: c9_args_def calc_lcoe_args_def)
  from network_sizing_ok [OF this] obtain s where s: "network_sizing c9_args = Inr s"
    and lv: "0 < total_lv_lines_length s"
    by blast
  have c: "calc_costs c9_args s =
     Inr \<lparr> td_investment_cost = households s * 100,
           total_investment_cost = households s * 100 + peak_load s / 0.2 * 4300,
           total_om_cost = 4300 * 0.02 * (peak_load s / 0.2),
           fuel_cost = 0 \<rparr>"
    by (simp add: calc_costs_def calc_fuel_cost_def c9_args_def calc_lcoe_args_def
          mv_line_cost_def lv_line_cost_def Let_def)
  have "households s * 100 + peak_load s / 0.2 * 4300 < spec_non_grid_investment c9_args s"
    using lv
    by (simp add: spec_non_grid_investment_def c9_args_def calc_lcoe_args_def
          mv_line_cost_def lv_line_cost_def)
  then show ?thesis
    using s c by simp
qed

text \<open>
  C9, amended. Off the grid the investment cost is the cost of the MV line (9000 a km over
  \<open>mv_line_length\<close>), plus the cost of the LV lines (5000 a km) over 75% of the total LV
  length for a mini-grid and over no length at all for a stand-alone system, plus the
  connection cost of every household, plus the peak load divided by the capacity factor
  times the capital cost of an installed kW.
\<close>

theorem non_grid_investment_cost:
  assumes "\<not> grid a" and "network_sizing a = Inr s" and "calc_costs a s = Inr c"
  shows "total_investment_cost c =
           mv_line_cost * mv_line_length a
           + lv_line_cost * (if standalone a then 0 else 0.75 * total_lv_lines_length s)
           + households s * connection_cost_per_hh a
           + peak_load s / capacity_factor a * capital_cost a
         \<and> mv_line_cost = 9000 \<and> lv_line_cost = 5000"
  using assms
  by (auto simp: calc_costs_def Let_def mv_line_cost_def lv_line_cost_def
           split: sum.splits if_splits)

theorem non_grid_investment_cost_witness:
  "\<exists>s c. network_sizing c9_mg_args = Inr s \<and> calc_costs c9_mg_args s = Inr c
     \<and> total_investment_cost c =
           mv_line_cost * 0 + lv_line_cost * (0.75 * total_lv_lines_length s)
           + households s * 100 + peak_load s / 0.3 * 3000"
proof -
  have g: "\<not> grid c9_mg_args"
    by (simp add: c9_mg_args_def calc_lcoe_args_def)
  have "valid_args c9_mg_args"
    by (simp add: valid_args_def c9_mg_args_def calc_lcoe_args_def)
  then obtain s c where s: "network_sizing c9_mg_args = Inr s"
    and c: "calc_costs c9_mg_args s = Inr c"
    using calc_lcoe_returns by blast
  from non_grid_investment_cost [OF g s c] s c show ?thesis
    by (simp add: c9_mg_args_def calc_lcoe_args_def)
qed

subsection \<open>C10: parameters out of range\<close>

definition c10_negative_cf :: lcoe_args where
  "c10_negative_cf = (calc_lcoe_args 10 1000 0.03 0.05 100 0.75 20)
                       \<lparr> capacity_factor := - 0.3, capital_cost := 3000, om_costs := 0.02 \<rparr>"

definition c10_no_people :: lcoe_args where
  "c10_no_people = (calc_lcoe_args 0 1000 0.03 0.05 100 0.75 20)
                     \<lparr> capacity_factor := 0.3, capital_cost := 3000, om_costs := 0.02 \<rparr>"

definition c10_below_zero :: lcoe_args where
  "c10_below_zero = (calc_lcoe_args 20 500 0.03 0.05 100 0.75 15)
                      \<lparr> capacity_factor := - 0.5, capital_cost := 5000, om_costs := 0.02,
                        standalone := True \<rparr>"

definition c10_zero_cf :: lcoe_args where
  "c10_zero_cf = (calc_lcoe_args 10 1000 0.03 0.05 100 0.75 20)
                   \<lparr> capacity_factor := 0, capital_cost := 3000, om_costs := 0.02 \<rparr>"

text \<open>
  C10 fails on a negative capacity factor: \<open>calc_lcoe\<close> checks no range, nothing divides by
  zero, and a number comes back.
\<close>

theorem out_of_range_counterexample:
  "capacity_factor c10_negative_cf \<le> 0
   \<and> (\<exists>v. calc_lcoe c10_negative_cf = Inr (Finite v))"
proof -
  have "valid_args c10_negative_cf"
    by (simp add: valid_args_def c10_negative_cf_def calc_lcoe_args_def)
  from calc_lcoe_returns [OF this] show ?thesis
    by (auto simp: c10_negative_cf_def)
qed

lemma calc_lcoe_no_people:
  assumes "people a = 0"
  shows "calc_lcoe a = Inl ZeroDivisionError"
  using assms by (simp add: calc_lcoe_def network_sizing_def)

lemma calc_lcoe_zero_capacity_factor:
  assumes "\<not> grid a" and "capacity_factor a = 0"
  shows "\<exists>e. calc_lcoe a = Inl e"
proof (cases "network_sizing a")
  case (Inl e)
  then show ?thesis
    by (simp add: calc_lcoe_def)
next
  case (Inr s)
  then show ?thesis
    using assms by (simp add: calc_lcoe_def calc_costs_def)
qed

lemma calc_lcoe_negative_capacity_factor:
  assumes "0 < people a" and "0 < scenario a" and "0 < base_to_peak_load_ratio a"
    and "- 1 < distribution_losses a" and "1 \<le> system_life a"
    and "diesel a \<longrightarrow> efficiency a \<noteq> 0" and "capacity_factor a < 0"
  shows "\<exists>v. calc_lcoe a = Inr (Finite v)"
proof -
  have "valid_args a"
    using assms by (simp add: valid_args_def)
  from calc_lcoe_returns [OF this] show ?thesis
    by blast
qed

text \<open>
  C10, amended. Invoked with no people (\<open>people = 0\<close>), \<open>calc_lcoe\<close> raises
  \<open>ZeroDivisionError\<close>, and invoked off the grid with a capacity factor of zero it raises an
  error, in both cases rather than returning a numeric value. A negative capacity factor
  does not make it fail: with positive people, scenario and base-to-peak load ratio,
  distribution losses above \<open>-1\<close>, a system life of one year or more and, for diesel, an
  efficiency other than zero, \<open>calc_lcoe\<close> with a negative capacity factor returns a finite
  number.
\<close>

theorem out_of_range_behaviour:
  "(people a = 0 \<longrightarrow> calc_lcoe a = Inl ZeroDivisionError)
   \<and> (\<not> grid a \<and> capacity_factor a = 0 \<longrightarrow> (\<exists>e. calc_lcoe a = Inl e))
   \<and> (0 < people a \<and> 0 < scenario a \<and> 0 < base_to_peak_load_ratio a
        \<and> - 1 < distribution_losses a \<and> 1 \<le> system_life a
        \<and> (diesel a \<longrightarrow> efficiency a \<noteq> 0) \<and> capacity_factor a < 0
      \<longrightarrow> (\<exists>v. calc_lcoe a = Inr (Finite v)))"
  using calc_lcoe_no_people [of a] calc_lcoe_zero_capacity_factor [of a]
    calc_lcoe_negative_capacity_factor [of a]
  by blast

theorem out_of_range_behaviour_witness:
  "calc_lcoe c10_no_people = Inl ZeroDivisionError
   \<and> (\<exists>e. calc_lcoe c10_zero_cf = Inl e)
   \<and> (\<exists>v. calc_lcoe c10_below_zero = Inr (Finite v))"
proof -
  have 1: "people c10_no_people = 0"
    by (simp add: c10_no_people_def calc_lcoe_args_def)
  have 2: "\<not> grid c10_zero_cf \<and> capacity_factor c10_zero_cf = 0"
    by (simp add: c10_zero_cf_def calc_lcoe_args_def)
  have 3: "0 < people c10_below_zero \<and> 0 < scenario c10_below_zero
           \<and> 0 < base_to_peak_load_ratio c10_below_zero
           \<and> - 1 < distribution_losses c10_below_zero \<and> 1 \<le> system_life c10_below_zero
           \<and> (diesel c10_below_zero \<longrightarrow> efficiency c10_below_zero \<noteq> 0)
           \<and> capacity_factor c10_below_zero < 0"
    by (simp add: c10_below_zero_def calc_lcoe_args_def)
  show ?thesis
    using out_of_range_behaviour [of c10_no_people] out_of_range_behaviour [of c10_zero_cf]
      out_of_range_behaviour [of c10_below_zero] 1 2 3
    by blast
qed


subsection \<open>The value of a call, and its parts\<close>

text \<open>The number a call returns (0 where it returns none).\<close>

definition lcoe_of :: "lcoe_args \<Rightarrow> real" where
  "lcoe_of a = (case calc_lcoe a of Inr (Finite v) \<Rightarrow> v | _ \<Rightarrow> 0)"

lemma lcoe_of_eq:
  assumes s: "network_sizing a = Inr s" and c: "calc_costs a s = Inr c"
    and btp: "0 < base_to_peak_load_ratio a" and life: "1 \<le> system_life a"
  shows "calc_lcoe a = Inr (Finite (lcoe_of a))"
    and "lcoe_of a =
           total_investment_cost c / (generation_per_year s * annuity (nat (system_life a)))
           + total_om_cost c / generation_per_year s + fuel_cost c"
proof -
  define A where "A = annuity (nat (system_life a))"
  define g where "g = generation_per_year s"
  have A: "0 < A"
    unfolding A_def using life by (intro annuity_pos) simp
  have g: "0 < g"
    unfolding g_def by (rule network_sizing_generation_pos [OF s btp])
  have v: "calc_lcoe a =
     Inr (Finite ((total_investment_cost c + (total_om_cost c + g * fuel_cost c) * A) / (g * A)))"
    unfolding A_def g_def by (rule calc_lcoe_closed [OF s c btp life])
  then show "calc_lcoe a = Inr (Finite (lcoe_of a))"
    by (simp add: lcoe_of_def)
  have "lcoe_of a = (total_investment_cost c + (total_om_cost c + g * fuel_cost c) * A) / (g * A)"
    using v by (simp add: lcoe_of_def)
  also have "\<dots> = total_investment_cost c / (g * A) + total_om_cost c / g + fuel_cost c"
    using A g by (simp add: field_simps)
  finally show "lcoe_of a =
           total_investment_cost c / (generation_per_year s * annuity (nat (system_life a)))
           + total_om_cost c / generation_per_year s + fuel_cost c"
    unfolding A_def g_def .
qed

lemma calc_lcoe_valid:
  assumes "valid_args a"
  shows "calc_lcoe a = Inr (Finite (lcoe_of a))"
proof -
  from calc_lcoe_returns [OF assms] obtain s c where "network_sizing a = Inr s"
    and "calc_costs a s = Inr c"
    by blast
  moreover from assms have "0 < base_to_peak_load_ratio a" "1 \<le> system_life a"
    by (simp_all add: valid_args_def)
  ultimately show ?thesis
    by (rule lcoe_of_eq(1))
qed

text \<open>
  The arguments whose costs are all of one sign: no negative price, cost or ratio, and a
  positive capacity factor and efficiency.
\<close>

definition nonneg_args :: "lcoe_args \<Rightarrow> bool" where
  "nonneg_args a \<longleftrightarrow>
     0 \<le> om_of_td_lines a \<and> 0 \<le> om_costs a \<and> 0 \<le> connection_cost_per_hh a
     \<and> 0 \<le> mv_line_length a \<and> 0 \<le> additional_mv_line_length a \<and> 0 \<le> capital_cost a
     \<and> 0 < capacity_factor a \<and> 0 < efficiency a \<and> 0 \<le> diesel_price a \<and> 0 \<le> grid_price a"

lemma calc_fuel_cost_nonneg:
  assumes "nonneg_args a" and "calc_fuel_cost a = Inr f"
  shows "0 \<le> f"
  using assms by (auto simp: nonneg_args_def calc_fuel_cost_def split: if_splits)

lemma calc_costs_nonneg:
  assumes nn: "nonneg_args a" and c: "calc_costs a s = Inr c"
    and s: "0 < households s" "0 < peak_load s" "0 < total_lv_lines_length s"
      "0 < total_length_of_lines s" "0 \<le> hv_lines_total_length s" "0 < num_transformers s"
  shows "0 \<le> total_investment_cost c \<and> 0 \<le> total_om_cost c \<and> 0 \<le> fuel_cost c"
proof -
  from c obtain f where f: "calc_fuel_cost a = Inr f" and fc: "fuel_cost c = f"
    by (auto simp: calc_costs_def Let_def split: if_splits sum.splits)
  have fuel: "0 \<le> fuel_cost c"
    using calc_fuel_cost_nonneg [OF nn f] fc by simp
  have conn: "0 \<le> households s * connection_cost_per_hh a"
    using nn s(1) by (simp add: nonneg_args_def)
  show ?thesis
  proof (cases "grid a")
    case True
    define td where "td = hv_lines_total_length s * hv_line_cost
                   + total_length_of_lines s * mv_line_cost
                   + total_lv_lines_length s * lv_line_cost
                   + of_int (num_transformers s) * hv_lv_transformer_cost
                   + households s * connection_cost_per_hh a
                   + additional_mv_line_length a
                     * (mv_line_cost
                        * (1 + mv_increase_rate) powr ((additional_mv_line_length a / 5) - 1))"
    have "0 \<le> additional_mv_line_length a
                 * (mv_line_cost
                    * (1 + mv_increase_rate) powr ((additional_mv_line_length a / 5) - 1))"
      using nn by (simp add: nonneg_args_def mv_line_cost_def)
    moreover have "0 \<le> hv_lines_total_length s * hv_line_cost"
      "0 \<le> total_length_of_lines s * mv_line_cost"
      "0 \<le> total_lv_lines_length s * lv_line_cost"
      "0 \<le> real_of_int (num_transformers s) * hv_lv_transformer_cost"
      using s by (simp_all add: hv_line_cost_def mv_line_cost_def lv_line_cost_def
          hv_lv_transformer_cost_def)
    ultimately have td: "0 \<le> td"
      unfolding td_def using conn by linarith
    have "total_investment_cost c = td" "total_om_cost c = td * om_of_td_lines a"
      using c True unfolding calc_costs_def Let_def td_def [symmetric]
      by (auto split: sum.splits)
    then show ?thesis
      using td nn fuel by (simp add: nonneg_args_def)
  next
    case False
    define td where "td = mv_line_cost * mv_line_length a
                   + lv_line_cost * (total_lv_lines_length s * (if standalone a then 0 else 0.75))
                   + households s * connection_cost_per_hh a"
    define cap where "cap = peak_load s / capacity_factor a"
    have "0 \<le> mv_line_cost * mv_line_length a"
      "0 \<le> lv_line_cost * (total_lv_lines_length s * (if standalone a then 0 else 0.75))"
      using nn s by (simp_all add: nonneg_args_def mv_line_cost_def lv_line_cost_def)
    then have td: "0 \<le> td"
      unfolding td_def using conn by linarith
    have cap: "0 \<le> cap"
      unfolding cap_def using nn s(2) by (simp add: nonneg_args_def)
    have "total_investment_cost c = td + cap * capital_cost a"
      "total_om_cost c = td * om_of_td_lines a + capital_cost a * om_costs a * cap"
      using c False unfolding calc_costs_def Let_def td_def [symmetric] cap_def [symmetric]
      by (auto split: sum.splits if_splits)
    moreover have "0 \<le> cap * capital_cost a" "0 \<le> td * om_of_td_lines a"
      "0 \<le> capital_cost a * om_costs a * cap"
      using td cap nn by (simp_all add: nonneg_args_def)
    ultimately show ?thesis
      using td fuel by simp
  qed
qed


subsection \<open>Capital costs only\<close>

text \<open>
  The arguments of a call with the four inputs that the capital-only mode leaves out set to
  zero: the O&M ratio of the T&D lines, the O&M ratio of the technology, the price of grid
  electricity and the price of diesel.
\<close>

definition zero_om_and_fuel :: "lcoe_args \<Rightarrow> lcoe_args" where
  "zero_om_and_fuel a =
     a \<lparr> om_of_td_lines := 0, om_costs := 0, grid_price := 0, diesel_price := 0 \<rparr>"

lemma valid_args_zero_om_and_fuel: "valid_args (zero_om_and_fuel a) = valid_args a"
  by (simp add: valid_args_def zero_om_and_fuel_def)

lemma zero_om_and_fuel_diff:
  assumes v: "valid_args a" and s: "network_sizing a = Inr s" and c: "calc_costs a s = Inr c"
  shows "lcoe_of a - lcoe_of (zero_om_and_fuel a) =
           total_om_cost c / generation_per_year s + fuel_cost c"
proof -
  let ?z = "zero_om_and_fuel a"
  from v have btp: "0 < base_to_peak_load_ratio a" and life: "1 \<le> system_life a"
    by (simp_all add: valid_args_def)
  have sz: "network_sizing ?z = Inr s"
    using s network_sizing_cong [of ?z a] by (simp add: zero_om_and_fuel_def)
  have cz: "calc_costs ?z s =
      Inr (c \<lparr> total_om_cost := 0, fuel_cost := 0 \<rparr>)"
    using c v
    by (auto simp: calc_costs_def calc_fuel_cost_def zero_om_and_fuel_def Let_def valid_args_def
             split: if_splits)
  have zpos: "0 < base_to_peak_load_ratio ?z" "1 \<le> system_life ?z"
    using btp life by (simp_all add: zero_om_and_fuel_def)
  have "lcoe_of ?z =
          total_investment_cost c
          / (generation_per_year s * annuity (nat (system_life a)))"
    using lcoe_of_eq(2) [OF sz cz zpos] by (simp add: zero_om_and_fuel_def)
  then show ?thesis
    by (simp add: lcoe_of_eq(2) [OF s c btp life])
qed

lemma zero_om_and_fuel_le:
  assumes v: "valid_args a" and nn: "nonneg_args a"
  shows "lcoe_of (zero_om_and_fuel a) \<le> lcoe_of a"
proof -
  from v have pos: "0 < people a" "0 < scenario a" "0 < base_to_peak_load_ratio a"
    "- 1 < distribution_losses a"
    by (simp_all add: valid_args_def)
  from network_sizing_ok [OF pos] obtain s where s: "network_sizing a = Inr s"
    and facts: "0 < households s" "0 < peak_load s" "0 < total_lv_lines_length s"
      "0 < total_length_of_lines s" "0 \<le> hv_lines_total_length s" "0 < num_transformers s"
    by blast
  from v obtain c where c: "calc_costs a s = Inr c"
    using calc_costs_ok [of a s] by (auto simp: valid_args_def)
  have g: "0 < generation_per_year s"
    by (rule network_sizing_generation_pos [OF s pos(3)])
  have "0 \<le> total_om_cost c / generation_per_year s + fuel_cost c"
    using calc_costs_nonneg [OF nn c facts] g by simp
  then show ?thesis
    using zero_om_and_fuel_diff [OF v s c] by linarith
qed


subsection \<open>get_lcoes as a run over its calls\<close>

text \<open>
  What \<open>get_lcoes\<close> does with its calls, whatever their arguments: the grid calls first,
  then the others in their order, the first exception ending the run, and the dictionary
  filled key by key.
\<close>

definition lcoes_of_calls ::
  "lcoe_args list \<Rightarrow> (string \<times> lcoe_args) list \<Rightarrow> py_error + (string \<rightharpoonup> lcoe_value)" where
  "lcoes_of_calls gcalls tcalls =
     (case calc_all gcalls of
        Inl e \<Rightarrow> Inl e
      | Inr g \<Rightarrow>
          (case calc_each tcalls of
             Inl e \<Rightarrow> Inl e
           | Inr kvs \<Rightarrow>
               Inr (fold (\<lambda>(k, v) lcoes. lcoes(k \<mapsto> Scalar v)) kvs [GRID \<mapsto> Seq g])))"

lemma get_lcoes_calls:
  "get_lcoes specs ppl scen calc_cap_only =
     lcoes_of_calls
       (grid_calls ppl scen (if calc_cap_only then 0 else 0.03) (GridLosses specs)
          (BaseToPeak specs) (if calc_cap_only then 0 else GridPrice specs))
       (tech_calls ppl scen (if calc_cap_only then 0 else 0.03)
          (if calc_cap_only then 0 else DieselPriceLow specs / LHV_DIESEL) calc_cap_only)"
  by (simp add: get_lcoes_def lcoes_of_calls_def Let_def)

text \<open>The two lists of calls that \<open>get_lcoes\<close> makes for a country, a density and a mode.\<close>

definition grid_calls_of :: "country_specs \<Rightarrow> real \<Rightarrow> real \<Rightarrow> bool \<Rightarrow> lcoe_args list" where
  "grid_calls_of specs ppl scen calc_cap_only =
     grid_calls ppl scen (if calc_cap_only then 0 else 0.03) (GridLosses specs)
       (BaseToPeak specs) (if calc_cap_only then 0 else GridPrice specs)"

definition tech_calls_of ::
  "country_specs \<Rightarrow> real \<Rightarrow> real \<Rightarrow> bool \<Rightarrow> (string \<times> lcoe_args) list" where
  "tech_calls_of specs ppl scen calc_cap_only =
     tech_calls ppl scen (if calc_cap_only then 0 else 0.03)
       (if calc_cap_only then 0 else DieselPriceLow specs / LHV_DIESEL) calc_cap_only"

lemma get_lcoes_calls_of:
  "get_lcoes specs ppl scen calc_cap_only =
     lcoes_of_calls (grid_calls_of specs ppl scen calc_cap_only)
       (tech_calls_of specs ppl scen calc_cap_only)"
  by (simp add: get_lcoes_calls grid_calls_of_def tech_calls_of_def)

lemma ELEC_DISTANCES_eq: "ELEC_DISTANCES = [5, 10, 15, 20, 25, 30, 35, 40, 45, 50]"
  unfolding ELEC_DISTANCES_def by (simp add: upt_rec)

text \<open>A run ends at the first call that raises; the first call raises where there is no load.\<close>

lemma get_lcoes_raises_at_first_call:
  assumes "calc_lcoe (hd (grid_calls_of specs ppl scen calc_cap_only)) = Inl e"
  shows "get_lcoes specs ppl scen calc_cap_only = Inl e"
proof -
  obtain a rest where gc: "grid_calls_of specs ppl scen calc_cap_only = a # rest"
    by (simp add: grid_calls_of_def grid_calls_def ELEC_DISTANCES_eq)
  with assms have "calc_lcoe a = Inl e"
    by simp
  then show ?thesis
    by (simp add: get_lcoes_calls_of lcoes_of_calls_def gc)
qed

lemma calc_lcoe_no_load:
  assumes "scenario a = 0 \<or> distribution_losses a = - 1 \<or> base_to_peak_load_ratio a = 0"
  shows "calc_lcoe a = Inl ZeroDivisionError"
proof (cases "base_to_peak_load_ratio a = 0")
  case True
  then show ?thesis
    by (simp add: calc_lcoe_def network_sizing_def)
next
  case False
  define avg where "avg = people a * grid_cell_area / NUM_PEOPLE_PER_HH * scenario a
                            * (1 + distribution_losses a) / HOURS_PER_YEAR"
  from False assms have avg: "avg = 0"
    unfolding avg_def by auto
  have "network_sizing a = Inl ZeroDivisionError"
    unfolding network_sizing_def Let_def avg_def [symmetric] by (simp add: avg)
  then show ?thesis
    by (simp add: calc_lcoe_def)
qed

lemma get_lcoes_no_load:
  assumes "ppl = 0 \<or> scen = 0 \<or> GridLosses specs = - 1 \<or> BaseToPeak specs = 0"
  shows "get_lcoes specs ppl scen calc_cap_only = Inl ZeroDivisionError"
proof -
  let ?a = "hd (grid_calls_of specs ppl scen calc_cap_only)"
  have args: "people ?a = ppl" "scenario ?a = scen" "distribution_losses ?a = GridLosses specs"
    "base_to_peak_load_ratio ?a = BaseToPeak specs"
    by (simp_all add: grid_calls_of_def grid_calls_def ELEC_DISTANCES_eq calc_lcoe_args_def)
  have "calc_lcoe ?a = Inl ZeroDivisionError"
  proof (cases "ppl = 0")
    case True
    have "people ?a = 0"
      by (simp only: args) (rule True)
    then show ?thesis
      by (rule calc_lcoe_no_people)
  next
    case False
    with assms have "scen = 0 \<or> GridLosses specs = - 1 \<or> BaseToPeak specs = 0"
      by simp
    then have "scenario ?a = 0 \<or> distribution_losses ?a = - 1
                 \<or> base_to_peak_load_ratio ?a = 0"
      by (simp only: args)
    then show ?thesis
      by (rule calc_lcoe_no_load)
  qed
  then show ?thesis
    by (rule get_lcoes_raises_at_first_call)
qed

lemma tech_calls_keys: "map fst (tech_calls ppl scen om_td dp calc_cap_only) = techs"
  by (simp add: tech_calls_def techs_def)

lemma techs_distinct: "distinct techs" and GRID_not_tech: "GRID \<notin> set techs"
  by (simp_all add: techs_def GRID_def MG_HYDRO_def MG_PV_LOW_def MG_PV_HIGH_def
        MG_WIND_LOW_def MG_WIND_MID_def MG_WIND_HIGH_def MG_DIESEL_def SA_DIESEL_def
        SA_PV_LOW_def SA_PV_HIGH_def)

lemma calc_all_Inr:
  "calc_all as = Inr vs \<Longrightarrow> list_all2 (\<lambda>a v. calc_lcoe a = Inr v) as vs"
  by (induction as arbitrary: vs) (auto split: sum.splits)

lemma calc_each_Inr:
  "calc_each cs = Inr kvs \<Longrightarrow>
     list_all2 (\<lambda>(k, a) (k', v). k' = k \<and> calc_lcoe a = Inr v) cs kvs"
  by (induction cs arbitrary: kvs) (auto split: sum.splits)

lemma calc_all_valid:
  "\<forall>a\<in>set as. valid_args a \<Longrightarrow> calc_all as = Inr (map (\<lambda>a. Finite (lcoe_of a)) as)"
  by (induction as) (simp_all add: calc_lcoe_valid)

lemma calc_each_valid:
  "\<forall>(k, a)\<in>set cs. valid_args a \<Longrightarrow>
     calc_each cs = Inr (map (\<lambda>(k, a). (k, Finite (lcoe_of a))) cs)"
  by (induction cs) (auto simp: calc_lcoe_valid)

lemma fold_scalar_other:
  "k \<notin> fst ` set kvs \<Longrightarrow>
     fold (\<lambda>(k, v) lcoes. lcoes(k \<mapsto> Scalar v)) kvs m k = m k"
  by (induction kvs arbitrary: m) auto

lemma fold_scalar_lookup:
  "distinct (map fst kvs) \<Longrightarrow> (k, v) \<in> set kvs \<Longrightarrow>
     fold (\<lambda>(k, v) lcoes. lcoes(k \<mapsto> Scalar v)) kvs m k = Some (Scalar v)"
proof (induction kvs arbitrary: m)
  case Nil
  then show ?case by simp
next
  case (Cons kv kvs)
  show ?case
  proof (cases "(k, v) = kv")
    case True
    then have "k \<notin> fst ` set kvs"
      using Cons.prems(1) by force
    from fold_scalar_other [OF this, of "m(k \<mapsto> Scalar v)"] show ?thesis
      using True [symmetric] by (simp del: fun_upd_apply) simp
  next
    case False
    then show ?thesis
      using Cons by auto
  qed
qed

lemma fold_scalar_dom:
  "dom (fold (\<lambda>(k, v) lcoes. lcoes(k \<mapsto> Scalar v)) kvs m) = dom m \<union> fst ` set kvs"
  by (induction kvs arbitrary: m) auto

text \<open>The calls of \<open>get_lcoes\<close> are valid wherever the loads are positive.\<close>

lemma grid_calls_valid:
  assumes "0 < ppl" and "0 < scen" and "0 < btp" and "- 1 < losses"
  shows "\<forall>a\<in>set (grid_calls ppl scen om_td losses btp gp). valid_args a"
  using assms by (simp add: grid_calls_def valid_args_def calc_lcoe_args_def)

lemma tech_calls_valid:
  assumes "0 < ppl" and "0 < scen"
  shows "\<forall>(k, a)\<in>set (tech_calls ppl scen om_td dp calc_cap_only). valid_args a"
  using assms
  by (simp add: tech_calls_def valid_args_def calc_lcoe_args_def HOURS_PER_YEAR_def
        split del: if_split)

lemma get_lcoes_valid:
  assumes "0 < ppl" and "0 < scen" and "0 < BaseToPeak specs" and "- 1 < GridLosses specs"
  shows "get_lcoes specs ppl scen calc_cap_only =
     Inr (fold (\<lambda>(k, v) lcoes. lcoes(k \<mapsto> Scalar v))
            (map (\<lambda>(k, a). (k, Finite (lcoe_of a)))
               (tech_calls ppl scen (if calc_cap_only then 0 else 0.03)
                  (if calc_cap_only then 0 else DieselPriceLow specs / LHV_DIESEL)
                  calc_cap_only))
            [GRID \<mapsto> Seq (map (\<lambda>a. Finite (lcoe_of a))
               (grid_calls ppl scen (if calc_cap_only then 0 else 0.03) (GridLosses specs)
                  (BaseToPeak specs) (if calc_cap_only then 0 else GridPrice specs)))])"
  unfolding get_lcoes_calls lcoes_of_calls_def
  by (simp only: calc_all_valid [OF grid_calls_valid [OF assms]]
        calc_each_valid [OF tech_calls_valid [OF assms(1,2)]] sum.case)

text \<open>Reading the dictionary that a run over valid calls returns.\<close>

lemma valid_dict_grid:
  "fold (\<lambda>(k, v) lcoes. lcoes(k \<mapsto> Scalar v))
     (map (\<lambda>(k, a). (k, Finite (lcoe_of a))) (tech_calls ppl scen om_td dp calc_cap_only))
     [GRID \<mapsto> g] GRID = Some g"
proof -
  have "GRID \<notin> fst ` set (map (\<lambda>(k, a). (k, Finite (lcoe_of a)))
                            (tech_calls ppl scen om_td dp calc_cap_only))"
    using GRID_not_tech tech_calls_keys [of ppl scen om_td dp calc_cap_only]
    by (metis (no_types, lifting) case_prod_unfold fst_conv list.map_comp list.set_map
        map_eq_conv o_apply)
  then show ?thesis
    by (simp add: fold_scalar_other)
qed

lemma valid_dict_tech:
  assumes "(k, a) \<in> set (tech_calls ppl scen om_td dp calc_cap_only)"
  shows "fold (\<lambda>(k, v) lcoes. lcoes(k \<mapsto> Scalar v))
     (map (\<lambda>(k, a). (k, Finite (lcoe_of a))) (tech_calls ppl scen om_td dp calc_cap_only))
     m k = Some (Scalar (Finite (lcoe_of a)))"
proof -
  let ?kvs = "map (\<lambda>(k, a). (k, Finite (lcoe_of a)))
                (tech_calls ppl scen om_td dp calc_cap_only)"
  have "map fst ?kvs = techs"
    using tech_calls_keys [of ppl scen om_td dp calc_cap_only]
    by (simp add: case_prod_unfold comp_def)
  then have "distinct (map fst ?kvs)"
    using techs_distinct by simp
  moreover have "(k, Finite (lcoe_of a)) \<in> set ?kvs"
    using assms by force
  ultimately show ?thesis
    by (rule fold_scalar_lookup)
qed

lemma tech_call_exists:
  assumes "k \<in> set techs"
  shows "\<exists>a. (k, a) \<in> set (tech_calls ppl scen om_td dp calc_cap_only)"
proof -
  from assms have "k \<in> set (map fst (tech_calls ppl scen om_td dp calc_cap_only))"
    by (simp only: tech_calls_keys)
  then show ?thesis
    by auto
qed

subsection \<open>C5: one formula, one switch\<close>

lemma grid_calls_capital_only:
  "grid_calls ppl scen 0 losses btp 0 =
     map zero_om_and_fuel (grid_calls ppl scen om_td losses btp gp)"
  by (simp add: grid_calls_def zero_om_and_fuel_def calc_lcoe_args_def)

lemma tech_calls_capital_only:
  "tech_calls ppl scen 0 0 True =
     map (\<lambda>(k, a). (k, zero_om_and_fuel a)) (tech_calls ppl scen om_td dp False)"
  by (simp add: tech_calls_def zero_om_and_fuel_def calc_lcoe_args_def)

text \<open>
  C5. The capital-only result is the result of the same run over the calls of the full-cost
  mode, each with the O&M ratio of the T&D lines, the O&M ratio of the technology, the grid
  price and the diesel price set to zero: the ten grid calls and the ten off-grid calls
  alike go through the one function \<open>calc_lcoe\<close>.
\<close>

theorem capital_only_is_full_cost_with_zeros:
  "get_lcoes specs ppl scen True =
     lcoes_of_calls
       (map zero_om_and_fuel
          (grid_calls ppl scen 0.03 (GridLosses specs) (BaseToPeak specs) (GridPrice specs)))
       (map (\<lambda>(k, a). (k, zero_om_and_fuel a))
          (tech_calls ppl scen 0.03 (DieselPriceLow specs / LHV_DIESEL) False))
   \<and> get_lcoes specs ppl scen False =
     lcoes_of_calls
       (grid_calls ppl scen 0.03 (GridLosses specs) (BaseToPeak specs) (GridPrice specs))
       (tech_calls ppl scen 0.03 (DieselPriceLow specs / LHV_DIESEL) False)"
  using grid_calls_capital_only [of ppl scen "GridLosses specs" "BaseToPeak specs" "3 / 100"
      "GridPrice specs"]
    tech_calls_capital_only [of ppl scen "3 / 100" "DieselPriceLow specs / LHV_DIESEL"]
  by (simp add: get_lcoes_calls)

subsection \<open>C6: the calls of get_lcoes\<close>

text \<open>
  The arguments of an off-grid call other than the people, the scenario, the diesel price
  and the two O&M ratios; and the two O&M ratios.
\<close>

definition tech_constants ::
  "lcoe_args \<Rightarrow> real \<times> real \<times> real \<times> int \<times> real \<times> real \<times> real \<times> real \<times> real \<times> real \<times> bool \<times> bool \<times> bool" where
  "tech_constants a =
     (distribution_losses a, connection_cost_per_hh a, base_to_peak_load_ratio a,
      system_life a, mv_line_length a, capital_cost a, capacity_factor a, efficiency a,
      additional_mv_line_length a, grid_price a, grid a, diesel a, standalone a)"

definition tech_om_ratios :: "lcoe_args \<Rightarrow> real \<times> real" where
  "tech_om_ratios a = (om_of_td_lines a, om_costs a)"

definition c6_specs :: country_specs where
  "c6_specs = \<lparr> Country = ''Testland'', GridPrice = 0.15, GridLosses = 0.08,
                BaseToPeak = 0.8, DieselPriceLow = 1 \<rparr>"

definition c6_other_specs :: country_specs where
  "c6_other_specs = \<lparr> Country = ''Otherland'', GridPrice = 0.15, GridLosses = 0.08,
                      BaseToPeak = 0.8, DieselPriceLow = 2 \<rparr>"

lemma calc_each_keys:
  "calc_each cs = Inr kvs \<Longrightarrow>
     map fst kvs = map fst cs
     \<and> (\<forall>(k, a)\<in>set cs. \<exists>v. calc_lcoe a = Inr v \<and> (k, v) \<in> set kvs)"
proof (induction cs arbitrary: kvs)
  case Nil
  then show ?case by simp
next
  case (Cons c cs)
  obtain k a where c: "c = (k, a)"
    by (cases c)
  from Cons.prems obtain v kvs' where v: "calc_lcoe a = Inr v"
    and rest: "calc_each cs = Inr kvs'" and kvs: "kvs = (k, v) # kvs'"
    by (auto simp: c split: sum.splits)
  from Cons.IH [OF rest] have fst: "map fst kvs' = map fst cs"
    and each: "\<forall>(k, a)\<in>set cs. \<exists>v. calc_lcoe a = Inr v \<and> (k, v) \<in> set kvs'"
    by simp_all
  have "\<forall>(k, a)\<in>set (c # cs). \<exists>v. calc_lcoe a = Inr v \<and> (k, v) \<in> set kvs"
  proof (clarify)
    fix k' a'
    assume "(k', a') \<in> set (c # cs)"
    then consider "(k', a') = (k, a)" | "(k', a') \<in> set cs"
      by (auto simp: c)
    then show "\<exists>v. calc_lcoe a' = Inr v \<and> (k', v) \<in> set kvs"
    proof cases
      case 1
      then show ?thesis
        using v by (auto simp: kvs)
    next
      case 2
      with each obtain w where "calc_lcoe a' = Inr w" "(k', w) \<in> set kvs'"
        by blast
      then show ?thesis
        by (auto simp: kvs)
    qed
  qed
  then show ?case
    using fst by (simp add: c kvs)
qed

lemma lcoes_of_calls_Inr:
  assumes run: "lcoes_of_calls gcalls tcalls = Inr lcoes"
    and keys: "distinct (map fst tcalls)" "GRID \<notin> set (map fst tcalls)"
  shows "\<exists>g. lcoes GRID = Some (Seq g)
           \<and> list_all2 (\<lambda>a v. calc_lcoe a = Inr v) gcalls g
           \<and> (\<forall>(k, a)\<in>set tcalls. \<exists>v. calc_lcoe a = Inr v \<and> lcoes k = Some (Scalar v))
           \<and> dom lcoes = insert GRID (set (map fst tcalls))"
proof -
  from run obtain g kvs where g: "calc_all gcalls = Inr g"
    and kvs: "calc_each tcalls = Inr kvs"
    and lcoes: "lcoes = fold (\<lambda>(k, v) lcoes. lcoes(k \<mapsto> Scalar v)) kvs [GRID \<mapsto> Seq g]"
    by (auto simp: lcoes_of_calls_def split: sum.splits)
  from calc_each_keys [OF kvs] have fst_kvs: "map fst kvs = map fst tcalls"
    and each: "\<forall>(k, a)\<in>set tcalls. \<exists>v. calc_lcoe a = Inr v \<and> (k, v) \<in> set kvs"
    by simp_all
  have dist: "distinct (map fst kvs)"
    using keys(1) by (simp only: fst_kvs)
  have img: "fst ` set kvs = set (map fst tcalls)"
    using fst_kvs by (metis set_map)
  have not_grid: "GRID \<notin> fst ` set kvs"
    using keys(2) by (simp only: img not_False_eq_True)
  have 1: "lcoes GRID = Some (Seq g)"
    unfolding lcoes by (simp add: fold_scalar_other [OF not_grid])
  have 2: "list_all2 (\<lambda>a v. calc_lcoe a = Inr v) gcalls g"
    by (rule calc_all_Inr [OF g])
  have 3: "\<forall>(k, a)\<in>set tcalls. \<exists>v. calc_lcoe a = Inr v \<and> lcoes k = Some (Scalar v)"
  proof (clarify)
    fix k a
    assume "(k, a) \<in> set tcalls"
    with each obtain v where v: "calc_lcoe a = Inr v" and mem: "(k, v) \<in> set kvs"
      by blast
    have "lcoes k = Some (Scalar v)"
      unfolding lcoes by (rule fold_scalar_lookup [OF dist mem])
    with v show "\<exists>v. calc_lcoe a = Inr v \<and> lcoes k = Some (Scalar v)"
      by blast
  qed
  have 4: "dom lcoes = insert GRID (set (map fst tcalls))"
    unfolding lcoes fold_scalar_dom img by simp
  from 1 2 3 4 show ?thesis
    by blast
qed

text \<open>
  C6 counts nine off-grid calls. The source makes ten: one for each of the ten names of
  \<open>techs\<close>. The arguments of an off-grid call are not all constants of its technology:
  the diesel price of the diesel calls is read from the country row, and the O&M ratios
  depend on the mode. And the calls are only all made where none raises: at a density of 0
  the first grid call raises and ends the run.
\<close>

theorem off_grid_calls_counterexample:
  "length (tech_calls_of c6_specs 10 1000 False) \<noteq> 9
   \<and> map (\<lambda>(k, a). (k, diesel_price a)) (tech_calls_of c6_specs 10 1000 False)
       \<noteq> map (\<lambda>(k, a). (k, diesel_price a)) (tech_calls_of c6_other_specs 10 1000 False)
   \<and> map (\<lambda>(k, a). (k, tech_om_ratios a)) (tech_calls_of c6_specs 10 1000 False)
       \<noteq> map (\<lambda>(k, a). (k, tech_om_ratios a)) (tech_calls_of c6_specs 10 1000 True)
   \<and> calc_lcoe (hd (grid_calls_of c6_specs 0 1000 False)) = Inl ZeroDivisionError
   \<and> get_lcoes c6_specs 0 1000 False = Inl ZeroDivisionError"
proof -
  have "length (tech_calls_of c6_specs 10 1000 False) \<noteq> 9
   \<and> map (\<lambda>(k, a). (k, diesel_price a)) (tech_calls_of c6_specs 10 1000 False)
       \<noteq> map (\<lambda>(k, a). (k, diesel_price a)) (tech_calls_of c6_other_specs 10 1000 False)
   \<and> map (\<lambda>(k, a). (k, tech_om_ratios a)) (tech_calls_of c6_specs 10 1000 False)
       \<noteq> map (\<lambda>(k, a). (k, tech_om_ratios a)) (tech_calls_of c6_specs 10 1000 True)"
    by (simp add: tech_calls_of_def tech_calls_def calc_lcoe_args_def tech_om_ratios_def
          c6_specs_def c6_other_specs_def LHV_DIESEL_def)
  moreover have "people (hd (grid_calls_of c6_specs 0 1000 False)) = 0"
    by (simp add: grid_calls_of_def grid_calls_def ELEC_DISTANCES_eq calc_lcoe_args_def)
  then have "calc_lcoe (hd (grid_calls_of c6_specs 0 1000 False)) = Inl ZeroDivisionError"
    by (rule calc_lcoe_no_people)
  moreover have "get_lcoes c6_specs 0 1000 False = Inl ZeroDivisionError"
    by (rule get_lcoes_no_load) simp
  ultimately show ?thesis
    by simp
qed

text \<open>
  C6, amended. For a country row and a density, whenever \<open>get_lcoes\<close> returns, it has called
  \<open>calc_lcoe\<close> once for each of the 10 distances of \<open>ELEC_DISTANCES\<close>, in their ascending
  order and in grid mode, and once for each of the 10 off-grid technologies of \<open>techs\<close>
  (not 9), off the grid. Each off-grid call is given the people and the scenario of the
  invocation and the fixed constant parameters of its technology: every argument other than
  the people, the scenario, the diesel price and the two O&M ratios is the same for every
  country, density, scenario and mode; the two O&M ratios are the same for every country,
  density and scenario in one mode; and the diesel price is the country's low diesel price
  divided by \<open>LHV_DIESEL\<close> for a diesel technology in full mode, and zero otherwise. The
  dictionary returned has the list of the 10 grid values under \<open>GRID\<close>, the value of its call
  under the name of each off-grid technology, and no other key.
\<close>

theorem get_lcoes_calls_and_result:
  assumes "get_lcoes specs ppl scen calc_cap_only = Inr lcoes"
  shows "length (grid_calls_of specs ppl scen calc_cap_only) = 10
     \<and> map additional_mv_line_length (grid_calls_of specs ppl scen calc_cap_only)
         = map real ELEC_DISTANCES
     \<and> ELEC_DISTANCES = [5, 10, 15, 20, 25, 30, 35, 40, 45, 50]
     \<and> list_all grid (grid_calls_of specs ppl scen calc_cap_only)
     \<and> length (tech_calls_of specs ppl scen calc_cap_only) = 10
     \<and> map fst (tech_calls_of specs ppl scen calc_cap_only) = techs
     \<and> distinct techs \<and> GRID \<notin> set techs
     \<and> list_all (\<lambda>(k, a). \<not> grid a) (tech_calls_of specs ppl scen calc_cap_only)
     \<and> list_all (\<lambda>(k, a). people a = ppl \<and> scenario a = scen)
         (tech_calls_of specs ppl scen calc_cap_only)
     \<and> map (\<lambda>(k, a). (k, tech_constants a)) (tech_calls_of specs ppl scen calc_cap_only)
         = map (\<lambda>(k, a). (k, tech_constants a)) (tech_calls_of specs' ppl' scen' calc_cap_only')
     \<and> map (\<lambda>(k, a). (k, tech_om_ratios a)) (tech_calls_of specs ppl scen calc_cap_only)
         = map (\<lambda>(k, a). (k, tech_om_ratios a)) (tech_calls_of specs' ppl' scen' calc_cap_only)
     \<and> list_all (\<lambda>(k, a). diesel_price a =
                    (if diesel a \<and> \<not> calc_cap_only then DieselPriceLow specs / LHV_DIESEL
                     else 0))
         (tech_calls_of specs ppl scen calc_cap_only)
     \<and> (\<exists>g. lcoes GRID = Some (Seq g) \<and> length g = 10
            \<and> list_all2 (\<lambda>a v. calc_lcoe a = Inr v)
                 (grid_calls_of specs ppl scen calc_cap_only) g)
     \<and> list_all (\<lambda>(k, a). \<exists>v. calc_lcoe a = Inr v \<and> lcoes k = Some (Scalar v))
         (tech_calls_of specs ppl scen calc_cap_only)
     \<and> dom lcoes = insert GRID (set techs)"
proof -
  let ?gc = "grid_calls_of specs ppl scen calc_cap_only"
  let ?tc = "tech_calls_of specs ppl scen calc_cap_only"
  have keys: "map fst ?tc = techs"
    by (simp only: tech_calls_of_def tech_calls_keys)
  have len_g: "length ?gc = 10"
    by (simp add: grid_calls_of_def grid_calls_def ELEC_DISTANCES_eq)
  have run: "lcoes_of_calls ?gc ?tc = Inr lcoes"
    using assms by (simp only: get_lcoes_calls_of)
  have d: "distinct (map fst ?tc)" and n: "GRID \<notin> set (map fst ?tc)"
    by (simp_all only: keys techs_distinct GRID_not_tech not_False_eq_True)
  from lcoes_of_calls_Inr [OF run d n]
  obtain g where g: "lcoes GRID = Some (Seq g)"
    and all2: "list_all2 (\<lambda>a v. calc_lcoe a = Inr v) ?gc g"
    and each: "\<forall>(k, a)\<in>set ?tc. \<exists>v. calc_lcoe a = Inr v \<and> lcoes k = Some (Scalar v)"
    and dom: "dom lcoes = insert GRID (set (map fst ?tc))"
    by blast
  have "length g = 10"
    using list_all2_lengthD [OF all2] len_g by simp
  with g all2 have ex: "\<exists>g. lcoes GRID = Some (Seq g) \<and> length g = 10
            \<and> list_all2 (\<lambda>a v. calc_lcoe a = Inr v) ?gc g"
    by blast
  have dists: "map additional_mv_line_length ?gc = map real ELEC_DISTANCES"
    by (simp add: grid_calls_of_def grid_calls_def comp_def)
  have all_grid: "list_all grid ?gc"
    by (simp add: grid_calls_of_def grid_calls_def list_all_iff)
  have "length ?tc = length (map fst ?tc)"
    by simp
  also have "\<dots> = 10"
    by (simp only: keys) (simp add: techs_def)
  finally have len_t: "length ?tc = 10" .
  have off_grid: "list_all (\<lambda>(k, a). \<not> grid a) ?tc"
    by (simp add: tech_calls_of_def tech_calls_def calc_lcoe_args_def split del: if_split)
  have inputs: "list_all (\<lambda>(k, a). people a = ppl \<and> scenario a = scen) ?tc"
    by (simp add: tech_calls_of_def tech_calls_def calc_lcoe_args_def split del: if_split)
  have same_constants: "map (\<lambda>(k, a). (k, tech_constants a)) ?tc
         = map (\<lambda>(k, a). (k, tech_constants a)) (tech_calls_of specs' ppl' scen' calc_cap_only')"
    by (simp add: tech_calls_of_def tech_calls_def calc_lcoe_args_def tech_constants_def
          split del: if_split)
  have same_ratios: "map (\<lambda>(k, a). (k, tech_om_ratios a)) ?tc
         = map (\<lambda>(k, a). (k, tech_om_ratios a)) (tech_calls_of specs' ppl' scen' calc_cap_only)"
    by (simp add: tech_calls_of_def tech_calls_def calc_lcoe_args_def tech_om_ratios_def
          split del: if_split)
  have prices: "list_all (\<lambda>(k, a). diesel_price a =
                    (if diesel a \<and> \<not> calc_cap_only then DieselPriceLow specs / LHV_DIESEL
                     else 0)) ?tc"
    by (cases calc_cap_only)
      (simp_all add: tech_calls_of_def tech_calls_def calc_lcoe_args_def)
  have results: "list_all (\<lambda>(k, a). \<exists>v. calc_lcoe a = Inr v \<and> lcoes k = Some (Scalar v)) ?tc"
    using each by (simp only: list_all_iff)
  have dom': "dom lcoes = insert GRID (set techs)"
    using dom by (simp only: keys)
  show ?thesis
    by (intro conjI)
      (rule len_g dists ELEC_DISTANCES_eq all_grid len_t keys techs_distinct GRID_not_tech
         off_grid inputs same_constants same_ratios prices ex results dom')+
qed

theorem get_lcoes_calls_and_result_witness:
  "\<exists>lcoes g. get_lcoes c6_specs 10 1000 False = Inr lcoes
     \<and> length (grid_calls_of c6_specs 10 1000 False) = 10
     \<and> length (tech_calls_of c6_specs 10 1000 False) = 10
     \<and> map fst (tech_calls_of c6_specs 10 1000 False) = techs
     \<and> lcoes GRID = Some (Seq g) \<and> length g = 10
     \<and> dom lcoes = insert GRID (set techs)"
proof -
  have v: "0 < (10::real)" "0 < (1000::real)" "0 < BaseToPeak c6_specs"
    "- 1 < GridLosses c6_specs"
    by (simp_all add: c6_specs_def)
  have "\<exists>lcoes. get_lcoes c6_specs 10 1000 False = Inr lcoes"
    by (rule exI, rule get_lcoes_valid [OF v])
  then obtain lcoes where r: "get_lcoes c6_specs 10 1000 False = Inr lcoes" ..
  note t = get_lcoes_calls_and_result [OF r, of c6_specs 10 1000 False]
  from r t show ?thesis
    apply (elim conjE exE)
    apply (intro exI conjI)
          apply assumption+
    done
qed


subsection \<open>C2: the grid viability search\<close>

lemma people_loop_find:
  "people_loop tech_lcoes grid_lcoes country d ppls frame =
     (case find (\<lambda>ppl. grid_lcoes country ppl d < min_lcoe_techs (tech_lcoes country ppl)) ppls of
        None \<Rightarrow> frame
      | Some ppl \<Rightarrow> frame(country := (frame country)(d := real ppl)))"
  by (induction ppls) (simp_all del: fun_upd_apply)

lemma people_loop_cell:
  "people_loop tech_lcoes grid_lcoes country d ppls frame c' d' =
     (if c' = country \<and> d' = d
      then (case find (\<lambda>ppl. grid_lcoes c' ppl d' < min_lcoe_techs (tech_lcoes c' ppl)) ppls of
              None \<Rightarrow> frame c' d'
            | Some ppl \<Rightarrow> real ppl)
      else frame c' d')"
  by (simp add: people_loop_find split: option.splits)

lemma distance_loop_cell:
  "fold (\<lambda>d frame1. people_loop tech_lcoes grid_lcoes country d ppls frame1) ds frame c' d' =
     (if c' = country \<and> d' \<in> set ds
      then (case find (\<lambda>ppl. grid_lcoes c' ppl d' < min_lcoe_techs (tech_lcoes c' ppl)) ppls of
              None \<Rightarrow> frame c' d'
            | Some ppl \<Rightarrow> real ppl)
      else frame c' d')"
proof (induction ds arbitrary: frame)
  case Nil
  then show ?case
    by simp
next
  case (Cons d ds)
  let ?F = "\<lambda>d frame1. people_loop tech_lcoes grid_lcoes country d ppls frame1"
  let ?frame = "people_loop tech_lcoes grid_lcoes country d ppls frame"
  have "fold ?F (d # ds) frame c' d' = fold ?F ds ?frame c' d'"
    by (simp only: fold_simps)
  also have "\<dots> =
     (if c' = country \<and> d' \<in> set ds
      then (case find (\<lambda>ppl. grid_lcoes c' ppl d' < min_lcoe_techs (tech_lcoes c' ppl)) ppls of
              None \<Rightarrow> ?frame c' d'
            | Some ppl \<Rightarrow> real ppl)
      else ?frame c' d')"
    by (rule Cons.IH)
  also have "\<dots> =
     (if c' = country \<and> d' \<in> set (d # ds)
      then (case find (\<lambda>ppl. grid_lcoes c' ppl d' < min_lcoe_techs (tech_lcoes c' ppl)) ppls of
              None \<Rightarrow> frame c' d'
            | Some ppl \<Rightarrow> real ppl)
      else frame c' d')"
    by (simp only: people_loop_cell) (auto split: option.splits)
  finally show ?case .
qed

lemma country_loop_cell:
  "fold (\<lambda>country frame.
           fold (\<lambda>d frame1. people_loop tech_lcoes grid_lcoes country d ppls frame1) ds frame)
        countries frame c' d' =
     (if c' \<in> set countries \<and> d' \<in> set ds
      then (case find (\<lambda>ppl. grid_lcoes c' ppl d' < min_lcoe_techs (tech_lcoes c' ppl)) ppls of
              None \<Rightarrow> frame c' d'
            | Some ppl \<Rightarrow> real ppl)
      else frame c' d')"
proof (induction countries arbitrary: frame)
  case Nil
  then show ?case
    by simp
next
  case (Cons c cs)
  let ?F = "\<lambda>country frame.
              fold (\<lambda>d frame1. people_loop tech_lcoes grid_lcoes country d ppls frame1) ds frame"
  let ?frame = "fold (\<lambda>d frame1. people_loop tech_lcoes grid_lcoes c d ppls frame1) ds frame"
  have "fold ?F (c # cs) frame c' d' = fold ?F cs ?frame c' d'"
    by (simp only: fold_simps)
  also have "\<dots> =
     (if c' \<in> set cs \<and> d' \<in> set ds
      then (case find (\<lambda>ppl. grid_lcoes c' ppl d' < min_lcoe_techs (tech_lcoes c' ppl)) ppls of
              None \<Rightarrow> ?frame c' d'
            | Some ppl \<Rightarrow> real ppl)
      else ?frame c' d')"
    by (rule Cons.IH)
  also have "\<dots> =
     (if c' \<in> set (c # cs) \<and> d' \<in> set ds
      then (case find (\<lambda>ppl. grid_lcoes c' ppl d' < min_lcoe_techs (tech_lcoes c' ppl)) ppls of
              None \<Rightarrow> frame c' d'
            | Some ppl \<Rightarrow> real ppl)
      else frame c' d')"
    by (simp only: distance_loop_cell) (auto split: option.splits)
  finally show ?case .
qed

lemma find_first_of_ascending:
  fixes xs :: "nat list"
  assumes "sorted_wrt (<) xs" and "find P xs = Some p"
  shows "p \<in> set xs \<and> P p \<and> (\<forall>q\<in>set xs. q < p \<longrightarrow> \<not> P q)"
  using assms
proof (induction xs)
  case Nil
  then show ?case
    by simp
next
  case (Cons x xs)
  show ?case
  proof (cases "P x")
    case True
    with Cons.prems have "p = x"
      by simp
    with True Cons.prems(1) show ?thesis
      by auto
  next
    case False
    with Cons.prems have "sorted_wrt (<) xs" "find P xs = Some p"
      by simp_all
    from Cons.IH [OF this] False show ?thesis
      by auto
  qed
qed

lemma people_arr_ascending: "sorted_wrt (<) people_arr"
  unfolding people_arr_def by (simp add: sorted_wrt_map sorted_wrt_upt)

lemma people_arr_length: "length people_arr = 400"
  by (simp add: people_arr_def)

lemma min_lcoe_techs_Min:
  "min_lcoe_techs lcoes =
     Min {lcoes MG_DIESEL, lcoes MG_WIND_MID, (lcoes SA_PV_LOW + lcoes SA_PV_HIGH) / 2,
          lcoes MG_HYDRO}"
  by (simp add: min_lcoe_techs_def)

lemma num_people_for_grid_cell:
  assumes "country \<in> set countries" and "d \<in> set ELEC_DISTANCES"
  shows "num_people_for_grid tech_lcoes grid_lcoes countries country d =
           (case find (\<lambda>ppl. grid_lcoes country ppl d < min_lcoe_techs (tech_lcoes country ppl))
                   people_arr of
              None \<Rightarrow> 1000000000
            | Some ppl \<Rightarrow> real ppl)"
  using assms by (simp add: num_people_for_grid_def country_loop_cell)

definition c2_tech_lcoes :: tech_panel where
  "c2_tech_lcoes country ppl tech = 1"

definition c2_grid_lcoes :: grid_panel where
  "c2_grid_lcoes country ppl d = (if country = ''A'' \<and> 30 \<le> ppl then 0 else 2)"

text \<open>
  C2. The densities sampled are the 400 values of \<open>people_arr\<close>, in ascending order. At a
  density, \<open>min_lcoe_techs\<close> is the least of four numbers: the LCOE of the diesel mini-grid,
  of the mid-capacity wind mini-grid and of the hydro mini-grid, and the mean of the two
  stand-alone PV. For a country of the panel and one of the 10 distances, the cell of
  \<open>num_people_for_grid\<close> holds the first density of \<open>people_arr\<close> at which the grid LCOE at that
  distance is strictly below \<open>min_lcoe_techs\<close>: the condition holds there and at no smaller
  sampled density. If it holds at no sampled density, the cell holds the sentinel \<open>1e9\<close>.
\<close>

theorem grid_viability_search:
  assumes "country \<in> set countries" and "d \<in> set ELEC_DISTANCES"
  shows "length people_arr = 400 \<and> sorted_wrt (<) people_arr
     \<and> length ELEC_DISTANCES = 10
     \<and> (\<forall>lcoes. min_lcoe_techs lcoes =
          Min {lcoes MG_DIESEL, lcoes MG_WIND_MID, (lcoes SA_PV_LOW + lcoes SA_PV_HIGH) / 2,
               lcoes MG_HYDRO})
     \<and> num_people_for_grid tech_lcoes grid_lcoes countries country d =
         (case find (\<lambda>ppl. grid_lcoes country ppl d < min_lcoe_techs (tech_lcoes country ppl))
                 people_arr of
            None \<Rightarrow> 1000000000
          | Some ppl \<Rightarrow> real ppl)
     \<and> ((\<exists>ppl\<in>set people_arr.
            num_people_for_grid tech_lcoes grid_lcoes countries country d = real ppl
            \<and> grid_lcoes country ppl d < min_lcoe_techs (tech_lcoes country ppl)
            \<and> (\<forall>q\<in>set people_arr.
                  q < ppl \<longrightarrow> \<not> grid_lcoes country q d < min_lcoe_techs (tech_lcoes country q)))
         \<or> (num_people_for_grid tech_lcoes grid_lcoes countries country d = 1000000000
            \<and> (\<forall>q\<in>set people_arr.
                  \<not> grid_lcoes country q d < min_lcoe_techs (tech_lcoes country q))))"
proof -
  let ?P = "\<lambda>ppl. grid_lcoes country ppl d < min_lcoe_techs (tech_lcoes country ppl)"
  let ?cell = "num_people_for_grid tech_lcoes grid_lcoes countries country d"
  note cell = num_people_for_grid_cell [OF assms, of tech_lcoes grid_lcoes]
  have last: "(\<exists>ppl\<in>set people_arr. ?cell = real ppl \<and> ?P ppl
                 \<and> (\<forall>q\<in>set people_arr. q < ppl \<longrightarrow> \<not> ?P q))
              \<or> (?cell = 1000000000 \<and> (\<forall>q\<in>set people_arr. \<not> ?P q))"
  proof (cases "find ?P people_arr")
    case None
    then have "\<forall>q\<in>set people_arr. \<not> ?P q"
      by (simp add: find_None_iff)
    moreover have "?cell = 1000000000"
      using cell None by simp
    ultimately show ?thesis
      by blast
  next
    case (Some ppl)
    from find_first_of_ascending [OF people_arr_ascending Some]
    have "ppl \<in> set people_arr" "?P ppl" "\<forall>q\<in>set people_arr. q < ppl \<longrightarrow> \<not> ?P q"
      by blast+
    moreover have "?cell = real ppl"
      using cell Some by simp
    ultimately show ?thesis
      by blast
  qed
  have len: "length ELEC_DISTANCES = 10"
    by (simp add: ELEC_DISTANCES_eq)
  show ?thesis
    using people_arr_length people_arr_ascending len min_lcoe_techs_Min cell last
    by (intro conjI allI)
qed

theorem grid_viability_search_witness:
  "num_people_for_grid c2_tech_lcoes c2_grid_lcoes [''A'', ''B''] ''A'' 5 = 30
   \<and> num_people_for_grid c2_tech_lcoes c2_grid_lcoes [''A'', ''B''] ''B'' 50 = 1000000000"
proof -
  have c: "''A'' \<in> set [''A'', ''B'']" "''B'' \<in> set [''A'', ''B'']"
    by simp_all
  have d: "5 \<in> set ELEC_DISTANCES" "50 \<in> set ELEC_DISTANCES"
    by (simp_all add: ELEC_DISTANCES_eq)
  have arr: "people_arr = 10 # 20 # 30 # map (\<lambda>x. 10 * x) [4..<401]"
    by (simp add: people_arr_def upt_conv_Cons)
  have a: "find (\<lambda>ppl. c2_grid_lcoes ''A'' ppl 5 < min_lcoe_techs (c2_tech_lcoes ''A'' ppl))
             people_arr = Some 30"
    unfolding arr by (simp add: c2_grid_lcoes_def c2_tech_lcoes_def min_lcoe_techs_def)
  have b: "find (\<lambda>ppl. c2_grid_lcoes ''B'' ppl 50 < min_lcoe_techs (c2_tech_lcoes ''B'' ppl))
             people_arr = None"
    by (simp add: find_None_iff c2_grid_lcoes_def c2_tech_lcoes_def min_lcoe_techs_def)
  note cell_a = grid_viability_search [OF c(1) d(1), of c2_tech_lcoes c2_grid_lcoes,
      THEN conjunct2, THEN conjunct2, THEN conjunct2, THEN conjunct2, THEN conjunct1]
  note cell_b = grid_viability_search [OF c(2) d(2), of c2_tech_lcoes c2_grid_lcoes,
      THEN conjunct2, THEN conjunct2, THEN conjunct2, THEN conjunct2, THEN conjunct1]
  have "num_people_for_grid c2_tech_lcoes c2_grid_lcoes [''A'', ''B''] ''A'' 5 = 30"
    by (simp only: cell_a a option.case of_nat_numeral)
  moreover have "num_people_for_grid c2_tech_lcoes c2_grid_lcoes [''A'', ''B''] ''B'' 50
                   = 1000000000"
    by (simp only: cell_b b option.case)
  ultimately show ?thesis
    by (rule conjI)
qed


subsection \<open>Calls with costs of one sign\<close>

lemma grid_calls_nonneg:
  assumes "0 \<le> om_td" and "0 \<le> gp"
  shows "\<forall>a\<in>set (grid_calls ppl scen om_td losses btp gp). nonneg_args a"
  using assms by (simp add: grid_calls_def nonneg_args_def calc_lcoe_args_def)

lemma tech_calls_nonneg:
  assumes "0 \<le> om_td" and "0 \<le> dp"
  shows "\<forall>(k, a)\<in>set (tech_calls ppl scen om_td dp calc_cap_only). nonneg_args a"
  using assms
  by (cases calc_cap_only)
    (simp_all add: tech_calls_def nonneg_args_def calc_lcoe_args_def HOURS_PER_YEAR_def)

lemma grid_calls_of_valid:
  assumes "0 < ppl" and "0 < scen" and "0 < BaseToPeak specs" and "- 1 < GridLosses specs"
  shows "\<forall>a\<in>set (grid_calls_of specs ppl scen calc_cap_only). valid_args a"
  unfolding grid_calls_of_def by (rule grid_calls_valid [OF assms])

lemma tech_calls_of_valid:
  assumes "0 < ppl" and "0 < scen"
  shows "\<forall>(k, a)\<in>set (tech_calls_of specs ppl scen calc_cap_only). valid_args a"
  unfolding tech_calls_of_def by (rule tech_calls_valid [OF assms])

lemma grid_calls_of_nonneg:
  assumes "0 \<le> GridPrice specs"
  shows "\<forall>a\<in>set (grid_calls_of specs ppl scen calc_cap_only). nonneg_args a"
  unfolding grid_calls_of_def using assms by (intro grid_calls_nonneg) simp_all

lemma tech_calls_of_nonneg:
  assumes "0 \<le> DieselPriceLow specs"
  shows "\<forall>(k, a)\<in>set (tech_calls_of specs ppl scen calc_cap_only). nonneg_args a"
  unfolding tech_calls_of_def using assms
  by (intro tech_calls_nonneg) (simp_all add: LHV_DIESEL_def)

subsection \<open>The denominator of the time value calculation\<close>

text \<open>The array \<open>discounted_generation\<close> of line 406, from lines 395 to 398.\<close>

definition discounted_generation :: "int \<Rightarrow> real \<Rightarrow> real list" where
  "discounted_generation life gen =
     (let n = nat (life + 1);
          year = [0..<n];
          el_gen = (replicate n gen)[0 := 0];
          discount_factor = map (\<lambda>y. (1 + discount_rate) ^ y) year
      in map2 (/) el_gen discount_factor)"




lemma get_lcoes_valid_of:
  assumes "0 < ppl" and "0 < scen" and "0 < BaseToPeak specs" and "- 1 < GridLosses specs"
  shows "get_lcoes specs ppl scen calc_cap_only =
     Inr (fold (\<lambda>(k, v) lcoes. lcoes(k \<mapsto> Scalar v))
            (map (\<lambda>(k, a). (k, Finite (lcoe_of a))) (tech_calls_of specs ppl scen calc_cap_only))
            [GRID \<mapsto> Seq (map (\<lambda>a. Finite (lcoe_of a))
                              (grid_calls_of specs ppl scen calc_cap_only))])"
  unfolding grid_calls_of_def tech_calls_of_def by (rule get_lcoes_valid [OF assms])


subsection \<open>Two countries with a negative price\<close>




definition cheap_diesel_specs :: country_specs where
  "cheap_diesel_specs = \<lparr> Country = ''Testland'', GridPrice = 0.15, GridLosses = 0,
                       BaseToPeak = 1, DieselPriceLow = - 1000 \<rparr>"

definition cheap_grid_specs :: country_specs where
  "cheap_grid_specs = \<lparr> Country = ''Testland'', GridPrice = - 100, GridLosses = 0,
                     BaseToPeak = 1, DieselPriceLow = 1 \<rparr>"

text \<open>
  The stand-alone diesel call of \<open>get_lcoes cheap_diesel_specs 10 438 False\<close> and the first grid
  call of \<open>get_lcoes cheap_grid_specs 10 438 False\<close>.
\<close>

definition cheap_sa_diesel_args :: lcoe_args where
  "cheap_sa_diesel_args = (calc_lcoe_args 10 438 0 0 100 0.5 15)
     \<lparr> capacity_factor := 0.7, capital_cost := 721, om_costs := 0.1, efficiency := 0.33,
       diesel_price := - 1000 / LHV_DIESEL, diesel := True, standalone := True \<rparr>"

definition cheap_grid_args :: lcoe_args where
  "cheap_grid_args = (calc_lcoe_args 10 438 0.03 0 125 1 30)
     \<lparr> additional_mv_line_length := 5, grid_price := - 100, grid := True \<rparr>"

lemma sqrt_100: "sqrt 100 = 10"
  by (rule real_sqrt_unique) simp_all

lemma ceiling_fifth: "\<lceil>1 / 5 :: real\<rceil> = 1"
  by (simp add: ceiling_eq_iff)

lemma network_sizing_cheap_grid_args:
  "network_sizing cheap_grid_args =
     Inr \<lparr> households = 200, average_load = 10, peak_load = 10, no_mv_lines = 1,
           no_lv_lines = 1, actual_lv_lines = 23, total_lv_lines_length = 1333 / 10,
           total_length_of_lines = 5, additional_hv_lines = 0, hv_lines_total_length = 0,
           num_transformers = 24, generation_per_year = 87600 \<rparr>"
  by (simp add: network_sizing_def cheap_grid_args_def calc_lcoe_args_def Let_def
      grid_cell_area_def NUM_PEOPLE_PER_HH_def HOURS_PER_YEAR_def mv_line_capacity_def
      lv_line_capacity_def lv_line_max_length_def mv_line_max_length_def round_py_def
      sqrt_100 ceiling_fifth power_divide power_mult_distrib real_sqrt_divide)

lemma cheap_grid_args_costs:
  "\<exists>s. network_sizing cheap_grid_args = Inr s \<and> generation_per_year s = 87600
     \<and> calc_costs cheap_grid_args s =
         Inr \<lparr> td_investment_cost = 901500, total_investment_cost = 901500,
               total_om_cost = 27045, fuel_cost = - 100 \<rparr>"
  by (simp add: network_sizing_cheap_grid_args)
    (simp add: calc_costs_def calc_fuel_cost_def cheap_grid_args_def calc_lcoe_args_def
       Let_def hv_line_cost_def mv_line_cost_def lv_line_cost_def
       hv_lv_transformer_cost_def mv_increase_rate_def)

lemma cheap_sa_diesel_args_costs:
  "\<exists>s. network_sizing cheap_sa_diesel_args = Inr s \<and> generation_per_year s = 87600
     \<and> calc_costs cheap_sa_diesel_args s =
         Inr \<lparr> td_investment_cost = 20000, total_investment_cost = 20000 + 20 / 0.7 * 721,
               total_om_cost = 721 * 0.1 * (20 / 0.7),
               fuel_cost = - 1000 / LHV_DIESEL / 0.33 \<rparr>"
proof -
  have pos: "0 < people cheap_sa_diesel_args" "0 < scenario cheap_sa_diesel_args"
    "0 < base_to_peak_load_ratio cheap_sa_diesel_args"
    "- 1 < distribution_losses cheap_sa_diesel_args"
    by (simp_all add: cheap_sa_diesel_args_def calc_lcoe_args_def)
  from network_sizing_ok [OF pos] obtain s where s: "network_sizing cheap_sa_diesel_args = Inr s"
    and hh: "households s = people cheap_sa_diesel_args * grid_cell_area / NUM_PEOPLE_PER_HH"
    and avg: "average_load s = households s * scenario cheap_sa_diesel_args
                * (1 + distribution_losses cheap_sa_diesel_args) / HOURS_PER_YEAR"
    and pk: "peak_load s = average_load s / base_to_peak_load_ratio cheap_sa_diesel_args"
    and gen: "generation_per_year s = average_load s * HOURS_PER_YEAR"
    by blast
  have hh': "households s = 200"
    by (simp add: hh cheap_sa_diesel_args_def calc_lcoe_args_def grid_cell_area_def
          NUM_PEOPLE_PER_HH_def)
  have avg': "average_load s = 10"
    by (simp add: avg hh' cheap_sa_diesel_args_def calc_lcoe_args_def HOURS_PER_YEAR_def)
  have pk': "peak_load s = 20"
    by (simp add: pk avg' cheap_sa_diesel_args_def calc_lcoe_args_def)
  have gen': "generation_per_year s = 87600"
    by (simp add: gen avg' HOURS_PER_YEAR_def)
  have "calc_costs cheap_sa_diesel_args s =
         Inr \<lparr> td_investment_cost = 20000, total_investment_cost = 20000 + 20 / 0.7 * 721,
               total_om_cost = 721 * 0.1 * (20 / 0.7),
               fuel_cost = - 1000 / LHV_DIESEL / 0.33 \<rparr>"
    by (simp add: calc_costs_def calc_fuel_cost_def cheap_sa_diesel_args_def calc_lcoe_args_def
          Let_def hh' pk' mv_line_cost_def lv_line_cost_def)
  with s gen' show ?thesis
    by blast
qed

lemma cheap_args_valid: "valid_args cheap_grid_args" "valid_args cheap_sa_diesel_args"
  by (simp_all add: valid_args_def cheap_grid_args_def cheap_sa_diesel_args_def
        calc_lcoe_args_def)



text \<open>The two calls in the dictionaries of their countries.\<close>

lemma cheap_sa_diesel_dict:
  "\<exists>lcoes. get_lcoes cheap_diesel_specs 10 438 False = Inr lcoes
     \<and> lcoes SA_DIESEL = Some (Scalar (Finite (lcoe_of cheap_sa_diesel_args)))"
proof -
  have d: "0 < (10::real)" "0 < (438::real)" "0 < BaseToPeak cheap_diesel_specs"
    "- 1 < GridLosses cheap_diesel_specs"
    by (simp_all add: cheap_diesel_specs_def)
  have "(SA_DIESEL, cheap_sa_diesel_args) \<in> set (tech_calls_of cheap_diesel_specs 10 438 False)"
    by (simp add: tech_calls_of_def tech_calls_def cheap_sa_diesel_args_def
          cheap_diesel_specs_def)
  then have "fold (\<lambda>(k, v) lcoes. lcoes(k \<mapsto> Scalar v))
            (map (\<lambda>(k, a). (k, Finite (lcoe_of a)))
               (tech_calls_of cheap_diesel_specs 10 438 False))
            [GRID \<mapsto> Seq (map (\<lambda>a. Finite (lcoe_of a))
                              (grid_calls_of cheap_diesel_specs 10 438 False))] SA_DIESEL
          = Some (Scalar (Finite (lcoe_of cheap_sa_diesel_args)))"
    unfolding tech_calls_of_def by (rule valid_dict_tech)
  with get_lcoes_valid_of [OF d, of False] show ?thesis
    by simp
qed

lemma cheap_grid_dict:
  "\<exists>lcoes g. get_lcoes cheap_grid_specs 10 438 False = Inr lcoes
     \<and> lcoes GRID = Some (Seq g) \<and> hd g = Finite (lcoe_of cheap_grid_args)"
proof -
  have g: "0 < (10::real)" "0 < (438::real)" "0 < BaseToPeak cheap_grid_specs"
    "- 1 < GridLosses cheap_grid_specs"
    by (simp_all add: cheap_grid_specs_def)
  have hd: "hd (grid_calls_of cheap_grid_specs 10 438 False) = cheap_grid_args"
    by (simp add: grid_calls_of_def grid_calls_def ELEC_DISTANCES_eq cheap_grid_args_def
          cheap_grid_specs_def)
  have ne: "grid_calls_of cheap_grid_specs 10 438 False \<noteq> []"
    by (simp add: grid_calls_of_def grid_calls_def ELEC_DISTANCES_eq)
  have "fold (\<lambda>(k, v) lcoes. lcoes(k \<mapsto> Scalar v))
            (map (\<lambda>(k, a). (k, Finite (lcoe_of a))) (tech_calls_of cheap_grid_specs 10 438 False))
            [GRID \<mapsto> Seq (map (\<lambda>a. Finite (lcoe_of a))
                              (grid_calls_of cheap_grid_specs 10 438 False))] GRID
          = Some (Seq (map (\<lambda>a. Finite (lcoe_of a))
                         (grid_calls_of cheap_grid_specs 10 438 False)))"
    unfolding tech_calls_of_def by (rule valid_dict_grid)
  moreover have "hd (map (\<lambda>a. Finite (lcoe_of a)) (grid_calls_of cheap_grid_specs 10 438 False))
                   = Finite (lcoe_of cheap_grid_args)"
    using ne by (simp add: hd_map hd)
  ultimately show ?thesis
    using get_lcoes_valid_of [OF g, of False] by simp
qed

subsection \<open>C7: the values are finite and not negative\<close>





subsection \<open>Runs on a negative load\<close>

lemma lcoe_of_eq_nonzero:
  assumes s: "network_sizing a = Inr s" and c: "calc_costs a s = Inr c"
    and gen: "generation_per_year s \<noteq> 0" and life: "1 \<le> system_life a"
  shows "calc_lcoe a = Inr (Finite (lcoe_of a))"
    and "lcoe_of a =
           total_investment_cost c / (generation_per_year s * annuity (nat (system_life a)))
           + total_om_cost c / generation_per_year s + fuel_cost c"
proof -
  define A where "A = annuity (nat (system_life a))"
  define g where "g = generation_per_year s"
  have A: "0 < A"
    unfolding A_def using life by (intro annuity_pos) simp
  have g: "g \<noteq> 0"
    unfolding g_def by (rule gen)
  have "0 \<le> system_life a"
    using life by simp
  then have v: "calc_lcoe a =
     Inr (Finite ((total_investment_cost c + (total_om_cost c + g * fuel_cost c) * A) / (g * A)))"
    using A g unfolding A_def g_def
    by (simp add: calc_lcoe_def s c time_value_lcoe_sums np_divide_def)
  then show "calc_lcoe a = Inr (Finite (lcoe_of a))"
    by (simp add: lcoe_of_def)
  have "lcoe_of a = (total_investment_cost c + (total_om_cost c + g * fuel_cost c) * A) / (g * A)"
    using v by (simp add: lcoe_of_def)
  also have "\<dots> = total_investment_cost c / (g * A) + total_om_cost c / g + fuel_cost c"
    using A g by (simp add: field_simps)
  finally show "lcoe_of a =
           total_investment_cost c / (generation_per_year s * annuity (nat (system_life a)))
           + total_om_cost c / generation_per_year s + fuel_cost c"
    unfolding A_def g_def .
qed

lemma calc_all_finite:
  "\<forall>a\<in>set as. calc_lcoe a = Inr (Finite (lcoe_of a)) \<Longrightarrow>
     calc_all as = Inr (map (\<lambda>a. Finite (lcoe_of a)) as)"
  by (induction as) simp_all

lemma get_lcoes_finite:
  assumes "\<forall>a\<in>set (grid_calls_of specs ppl scen calc_cap_only).
             calc_lcoe a = Inr (Finite (lcoe_of a))"
    and "0 < ppl" and "0 < scen"
  shows "\<exists>lcoes. get_lcoes specs ppl scen calc_cap_only = Inr lcoes
           \<and> lcoes GRID = Some (Seq (map (\<lambda>a. Finite (lcoe_of a))
                                        (grid_calls_of specs ppl scen calc_cap_only)))"
proof -
  let ?gc = "grid_calls_of specs ppl scen calc_cap_only"
  let ?tc = "tech_calls_of specs ppl scen calc_cap_only"
  let ?lcoes = "fold (\<lambda>(k, v) lcoes. lcoes(k \<mapsto> Scalar v))
                  (map (\<lambda>(k, a). (k, Finite (lcoe_of a))) ?tc)
                  [GRID \<mapsto> Seq (map (\<lambda>a. Finite (lcoe_of a)) ?gc)]"
  have "calc_each ?tc = Inr (map (\<lambda>(k, a). (k, Finite (lcoe_of a))) ?tc)"
    by (rule calc_each_valid [OF tech_calls_of_valid [OF assms(2,3)]])
  then have "get_lcoes specs ppl scen calc_cap_only = Inr ?lcoes"
    by (simp add: get_lcoes_calls_of lcoes_of_calls_def calc_all_finite [OF assms(1)])
  moreover have "?lcoes GRID = Some (Seq (map (\<lambda>a. Finite (lcoe_of a)) ?gc))"
    unfolding tech_calls_of_def by (rule valid_dict_grid)
  ultimately show ?thesis
    by blast
qed

text \<open>
  A country whose base-to-peak ratio and grid losses are both negative: the peak load of a
  grid call is positive, its load and its generation are negative.
\<close>

definition negative_ratio_specs :: country_specs where
  "negative_ratio_specs = \<lparr> Country = ''Testland'', GridPrice = 0.15, GridLosses = - 2,
                            BaseToPeak = - 1, DieselPriceLow = 1 \<rparr>"

lemma negative_ratio_sizing:
  assumes "people a = 10" and "scenario a = 438" and "distribution_losses a = - 2"
    and "base_to_peak_load_ratio a = - 1"
  shows "network_sizing a =
     Inr \<lparr> households = 200, average_load = - 10, peak_load = 10, no_mv_lines = 1,
           no_lv_lines = 1, actual_lv_lines = 23, total_lv_lines_length = 1333 / 10,
           total_length_of_lines = 5, additional_hv_lines = 0, hv_lines_total_length = 0,
           num_transformers = 24, generation_per_year = - 87600 \<rparr>"
  by (simp add: network_sizing_def assms Let_def
      grid_cell_area_def NUM_PEOPLE_PER_HH_def HOURS_PER_YEAR_def mv_line_capacity_def
      lv_line_capacity_def lv_line_max_length_def mv_line_max_length_def round_py_def
      sqrt_100 ceiling_fifth power_divide power_mult_distrib real_sqrt_divide)

text \<open>The grid call of that country at density 10, scenario 438 and distance \<open>d\<close>.\<close>

definition negative_ratio_call :: "real \<Rightarrow> real \<Rightarrow> real \<Rightarrow> lcoe_args" where
  "negative_ratio_call om_td gp d =
     (calc_lcoe_args 10 438 om_td (- 2) 125 (- 1) 30)
       \<lparr> additional_mv_line_length := d, grid_price := gp, grid := True \<rparr>"

lemma negative_ratio_call_lcoe:
  "calc_lcoe (negative_ratio_call om_td gp d) = Inr (Finite (lcoe_of (negative_ratio_call om_td gp d)))"
  "lcoe_of (negative_ratio_call om_td gp d) =
     (856500 + d * (9000 * (11 / 10) powr (d / 5 - 1))) / (- 87600 * annuity 30)
     + (856500 + d * (9000 * (11 / 10) powr (d / 5 - 1))) * om_td / (- 87600) + gp"
proof -
  let ?a = "negative_ratio_call om_td gp d"
  let ?s = "\<lparr> households = 200, average_load = - 10, peak_load = 10, no_mv_lines = 1,
           no_lv_lines = 1, actual_lv_lines = 23, total_lv_lines_length = 1333 / 10,
           total_length_of_lines = 5, additional_hv_lines = 0, hv_lines_total_length = 0,
           num_transformers = 24, generation_per_year = - 87600 \<rparr>"
  let ?I = "856500 + d * (9000 * (11 / 10) powr (d / 5 - 1))"
  have s: "network_sizing ?a = Inr ?s"
    by (rule negative_ratio_sizing) (simp_all add: negative_ratio_call_def calc_lcoe_args_def)
  have c: "calc_costs ?a ?s = Inr \<lparr> td_investment_cost = ?I, total_investment_cost = ?I,
                                   total_om_cost = ?I * om_td, fuel_cost = gp \<rparr>"
    by (simp add: calc_costs_def calc_fuel_cost_def negative_ratio_call_def calc_lcoe_args_def
          Let_def hv_line_cost_def mv_line_cost_def lv_line_cost_def
          hv_lv_transformer_cost_def mv_increase_rate_def)
  have gen: "generation_per_year ?s \<noteq> 0"
    by simp
  have life: "1 \<le> system_life ?a"
    by (simp add: negative_ratio_call_def calc_lcoe_args_def)
  show "calc_lcoe ?a = Inr (Finite (lcoe_of ?a))"
    by (rule lcoe_of_eq_nonzero(1) [OF s c gen life])
  show "lcoe_of ?a = ?I / (- 87600 * annuity 30) + ?I * om_td / (- 87600) + gp"
    using lcoe_of_eq_nonzero(2) [OF s c gen life]
    by (simp add: negative_ratio_call_def calc_lcoe_args_def)
qed

lemma negative_ratio_grid_calls:
  "grid_calls_of negative_ratio_specs 10 438 calc_cap_only =
     map (\<lambda>d. negative_ratio_call (if calc_cap_only then 0 else 0.03)
                 (if calc_cap_only then 0 else 0.15) (real d)) ELEC_DISTANCES"
  by (simp add: grid_calls_of_def grid_calls_def negative_ratio_call_def
        negative_ratio_specs_def)

lemma negative_ratio_dict:
  "\<exists>lcoes. get_lcoes negative_ratio_specs 10 438 calc_cap_only = Inr lcoes
     \<and> lcoes GRID =
         Some (Seq (map (\<lambda>d. Finite (lcoe_of (negative_ratio_call
                                (if calc_cap_only then 0 else 0.03)
                                (if calc_cap_only then 0 else 0.15) (real d))))
                      ELEC_DISTANCES))"
proof -
  have "\<forall>a\<in>set (grid_calls_of negative_ratio_specs 10 438 calc_cap_only).
          calc_lcoe a = Inr (Finite (lcoe_of a))"
    unfolding negative_ratio_grid_calls by (auto simp: negative_ratio_call_lcoe(1))
  from get_lcoes_finite [OF this] show ?thesis
    unfolding negative_ratio_grid_calls by (simp add: comp_def)
qed

subsection \<open>C3: capital costs only against full costs\<close>

definition c3_specs :: country_specs where
  "c3_specs = \<lparr> Country = ''Testland'', GridPrice = 0.15, GridLosses = 0.08,
                BaseToPeak = 0.8, DieselPriceLow = 1 \<rparr>"

lemma cheap_sa_diesel_dict_cap:
  "\<exists>lcoes. get_lcoes cheap_diesel_specs 10 438 True = Inr lcoes
     \<and> lcoes SA_DIESEL =
         Some (Scalar (Finite (lcoe_of (zero_om_and_fuel cheap_sa_diesel_args))))"
proof -
  have d: "0 < (10::real)" "0 < (438::real)" "0 < BaseToPeak cheap_diesel_specs"
    "- 1 < GridLosses cheap_diesel_specs"
    by (simp_all add: cheap_diesel_specs_def)
  have "(SA_DIESEL, zero_om_and_fuel cheap_sa_diesel_args)
          \<in> set (tech_calls_of cheap_diesel_specs 10 438 True)"
    by (simp add: tech_calls_of_def tech_calls_def cheap_sa_diesel_args_def
          cheap_diesel_specs_def zero_om_and_fuel_def calc_lcoe_args_def)
  then have "fold (\<lambda>(k, v) lcoes. lcoes(k \<mapsto> Scalar v))
            (map (\<lambda>(k, a). (k, Finite (lcoe_of a)))
               (tech_calls_of cheap_diesel_specs 10 438 True))
            [GRID \<mapsto> Seq (map (\<lambda>a. Finite (lcoe_of a))
                              (grid_calls_of cheap_diesel_specs 10 438 True))] SA_DIESEL
          = Some (Scalar (Finite (lcoe_of (zero_om_and_fuel cheap_sa_diesel_args))))"
    unfolding tech_calls_of_def by (rule valid_dict_tech)
  with get_lcoes_valid_of [OF d, of True] show ?thesis
    by simp
qed

lemma cheap_grid_dict_cap:
  "\<exists>lcoes g. get_lcoes cheap_grid_specs 10 438 True = Inr lcoes
     \<and> lcoes GRID = Some (Seq g)
     \<and> hd g = Finite (lcoe_of (zero_om_and_fuel cheap_grid_args))"
proof -
  have g: "0 < (10::real)" "0 < (438::real)" "0 < BaseToPeak cheap_grid_specs"
    "- 1 < GridLosses cheap_grid_specs"
    by (simp_all add: cheap_grid_specs_def)
  have hd: "hd (grid_calls_of cheap_grid_specs 10 438 True) = zero_om_and_fuel cheap_grid_args"
    by (simp add: grid_calls_of_def grid_calls_def ELEC_DISTANCES_eq cheap_grid_args_def
          cheap_grid_specs_def zero_om_and_fuel_def calc_lcoe_args_def)
  have ne: "grid_calls_of cheap_grid_specs 10 438 True \<noteq> []"
    by (simp add: grid_calls_of_def grid_calls_def ELEC_DISTANCES_eq)
  have "fold (\<lambda>(k, v) lcoes. lcoes(k \<mapsto> Scalar v))
            (map (\<lambda>(k, a). (k, Finite (lcoe_of a))) (tech_calls_of cheap_grid_specs 10 438 True))
            [GRID \<mapsto> Seq (map (\<lambda>a. Finite (lcoe_of a))
                              (grid_calls_of cheap_grid_specs 10 438 True))] GRID
          = Some (Seq (map (\<lambda>a. Finite (lcoe_of a))
                         (grid_calls_of cheap_grid_specs 10 438 True)))"
    unfolding tech_calls_of_def by (rule valid_dict_grid)
  moreover have "hd (map (\<lambda>a. Finite (lcoe_of a)) (grid_calls_of cheap_grid_specs 10 438 True))
                   = Finite (lcoe_of (zero_om_and_fuel cheap_grid_args))"
    using ne by (simp add: hd_map hd)
  ultimately show ?thesis
    using get_lcoes_valid_of [OF g, of True] by simp
qed

lemma cheap_sa_diesel_full_below_capital:
  "lcoe_of cheap_sa_diesel_args < lcoe_of (zero_om_and_fuel cheap_sa_diesel_args)"
proof -
  from cheap_sa_diesel_args_costs obtain s where s: "network_sizing cheap_sa_diesel_args = Inr s"
    and gen: "generation_per_year s = 87600"
    and c: "calc_costs cheap_sa_diesel_args s =
         Inr \<lparr> td_investment_cost = 20000, total_investment_cost = 20000 + 20 / 0.7 * 721,
               total_om_cost = 721 * 0.1 * (20 / 0.7),
               fuel_cost = - 1000 / LHV_DIESEL / 0.33 \<rparr>"
    by blast
  have "lcoe_of cheap_sa_diesel_args - lcoe_of (zero_om_and_fuel cheap_sa_diesel_args)
          = 721 * 0.1 * (20 / 0.7) / 87600 + - 1000 / LHV_DIESEL / 0.33"
    using zero_om_and_fuel_diff [OF cheap_args_valid(2) s c] by (simp add: gen)
  also have "\<dots> < 0"
    by (simp add: LHV_DIESEL_def)
  finally show ?thesis
    by simp
qed

lemma cheap_grid_full_below_capital:
  "lcoe_of cheap_grid_args < lcoe_of (zero_om_and_fuel cheap_grid_args)"
proof -
  from cheap_grid_args_costs obtain s where s: "network_sizing cheap_grid_args = Inr s"
    and gen: "generation_per_year s = 87600"
    and c: "calc_costs cheap_grid_args s =
         Inr \<lparr> td_investment_cost = 901500, total_investment_cost = 901500,
               total_om_cost = 27045, fuel_cost = - 100 \<rparr>"
    by blast
  have "lcoe_of cheap_grid_args - lcoe_of (zero_om_and_fuel cheap_grid_args)
          = 27045 / 87600 + - 100"
    using zero_om_and_fuel_diff [OF cheap_args_valid(1) s c] by (simp add: gen)
  also have "\<dots> < 0"
    by simp
  finally show ?thesis
    by simp
qed

lemma negative_ratio_full_below_capital:
  "lcoe_of (negative_ratio_call 0.03 0.15 5) < lcoe_of (negative_ratio_call 0 0 5)"
  by (simp add: negative_ratio_call_lcoe(2))

text \<open>
  C3 fails as worded. At a density of 0, a scenario of 0, a base-to-peak ratio of 0 or grid
  losses of \<open>-1\<close>, \<open>get_lcoes\<close> raises in both modes and there is no LCOE to compare. With a
  negative diesel price the full stand-alone diesel LCOE is below the capital-only one; with
  a negative grid price the full grid LCOE is below the capital-only one; and so it is, at
  prices that are not negative, for a country whose base-to-peak ratio and grid losses are
  negative, where the generation that divides the O&M cost is negative.
\<close>

theorem capital_only_le_full_counterexample:
  "get_lcoes c3_specs 0 438 True = Inl ZeroDivisionError
   \<and> get_lcoes c3_specs 0 438 False = Inl ZeroDivisionError
   \<and> get_lcoes c3_specs 10 0 True = Inl ZeroDivisionError
   \<and> get_lcoes c3_specs 10 0 False = Inl ZeroDivisionError
   \<and> get_lcoes (c3_specs \<lparr> BaseToPeak := 0 \<rparr>) 10 438 True = Inl ZeroDivisionError
   \<and> get_lcoes (c3_specs \<lparr> BaseToPeak := 0 \<rparr>) 10 438 False = Inl ZeroDivisionError
   \<and> get_lcoes (c3_specs \<lparr> GridLosses := - 1 \<rparr>) 10 438 True = Inl ZeroDivisionError
   \<and> get_lcoes (c3_specs \<lparr> GridLosses := - 1 \<rparr>) 10 438 False = Inl ZeroDivisionError
   \<and> (\<exists>cap full x y. get_lcoes cheap_diesel_specs 10 438 True = Inr cap
         \<and> get_lcoes cheap_diesel_specs 10 438 False = Inr full
         \<and> cap SA_DIESEL = Some (Scalar (Finite x))
         \<and> full SA_DIESEL = Some (Scalar (Finite y)) \<and> y < x)
   \<and> (\<exists>cap full gc gf x y. get_lcoes cheap_grid_specs 10 438 True = Inr cap
         \<and> get_lcoes cheap_grid_specs 10 438 False = Inr full
         \<and> cap GRID = Some (Seq gc) \<and> full GRID = Some (Seq gf)
         \<and> hd gc = Finite x \<and> hd gf = Finite y \<and> y < x)
   \<and> (\<exists>cap full gc gf x y. get_lcoes negative_ratio_specs 10 438 True = Inr cap
         \<and> get_lcoes negative_ratio_specs 10 438 False = Inr full
         \<and> cap GRID = Some (Seq gc) \<and> full GRID = Some (Seq gf)
         \<and> hd gc = Finite x \<and> hd gf = Finite y \<and> y < x)"
proof -
  have 1: "get_lcoes c3_specs 0 438 m = Inl ZeroDivisionError" for m
    by (rule get_lcoes_no_load) simp
  have 2: "get_lcoes c3_specs 10 0 m = Inl ZeroDivisionError" for m
    by (rule get_lcoes_no_load) simp
  have 3: "get_lcoes (c3_specs \<lparr> BaseToPeak := 0 \<rparr>) 10 438 m = Inl ZeroDivisionError" for m
    by (rule get_lcoes_no_load) simp
  have 4: "get_lcoes (c3_specs \<lparr> GridLosses := - 1 \<rparr>) 10 438 m = Inl ZeroDivisionError" for m
    by (rule get_lcoes_no_load) simp
  have 5: "\<exists>cap full x y. get_lcoes cheap_diesel_specs 10 438 True = Inr cap
         \<and> get_lcoes cheap_diesel_specs 10 438 False = Inr full
         \<and> cap SA_DIESEL = Some (Scalar (Finite x))
         \<and> full SA_DIESEL = Some (Scalar (Finite y)) \<and> y < x"
    using cheap_sa_diesel_dict_cap cheap_sa_diesel_dict cheap_sa_diesel_full_below_capital
    by blast
  have 6: "\<exists>cap full gc gf x y. get_lcoes cheap_grid_specs 10 438 True = Inr cap
         \<and> get_lcoes cheap_grid_specs 10 438 False = Inr full
         \<and> cap GRID = Some (Seq gc) \<and> full GRID = Some (Seq gf)
         \<and> hd gc = Finite x \<and> hd gf = Finite y \<and> y < x"
    using cheap_grid_dict_cap cheap_grid_dict cheap_grid_full_below_capital
    by blast
  from negative_ratio_dict [of True] obtain cap
    where cap: "get_lcoes negative_ratio_specs 10 438 True = Inr cap"
      and cap_grid: "cap GRID =
         Some (Seq (map (\<lambda>d. Finite (lcoe_of (negative_ratio_call 0 0 (real d))))
                      ELEC_DISTANCES))"
    by auto
  from negative_ratio_dict [of False] obtain full
    where full: "get_lcoes negative_ratio_specs 10 438 False = Inr full"
      and full_grid: "full GRID =
         Some (Seq (map (\<lambda>d. Finite (lcoe_of (negative_ratio_call 0.03 0.15 (real d))))
                      ELEC_DISTANCES))"
    by auto
  have "hd (map (\<lambda>d. Finite (lcoe_of (negative_ratio_call 0 0 (real d)))) ELEC_DISTANCES)
          = Finite (lcoe_of (negative_ratio_call 0 0 5))"
    "hd (map (\<lambda>d. Finite (lcoe_of (negative_ratio_call 0.03 0.15 (real d)))) ELEC_DISTANCES)
          = Finite (lcoe_of (negative_ratio_call 0.03 0.15 5))"
    by (simp_all add: ELEC_DISTANCES_eq)
  with cap cap_grid full full_grid negative_ratio_full_below_capital
  have 7: "\<exists>cap full gc gf x y. get_lcoes negative_ratio_specs 10 438 True = Inr cap
         \<and> get_lcoes negative_ratio_specs 10 438 False = Inr full
         \<and> cap GRID = Some (Seq gc) \<and> full GRID = Some (Seq gf)
         \<and> hd gc = Finite x \<and> hd gf = Finite y \<and> y < x"
    by blast
  from 1 2 3 4 5 6 7 show ?thesis
    by (intro conjI)
qed

text \<open>
  C3, amended. For every density above zero, every scenario above zero and every country
  with a positive base-to-peak ratio, grid losses above \<open>-1\<close>, a grid price that is not
  negative and a diesel price that is not negative, \<open>get_lcoes\<close> returns in both modes, and
  for every technology the capital-only LCOE is at most the full LCOE computed from the same
  parameters: for the grid at each of the 10 distances, and for each of the 10 off-grid
  technologies.
\<close>

theorem capital_only_le_full:
  assumes "0 < ppl" and "0 < scen" and "0 < BaseToPeak specs" and "- 1 < GridLosses specs"
    and "0 \<le> GridPrice specs" and "0 \<le> DieselPriceLow specs"
  shows "\<exists>cap full gc gf. get_lcoes specs ppl scen True = Inr cap
     \<and> get_lcoes specs ppl scen False = Inr full
     \<and> cap GRID = Some (Seq gc) \<and> full GRID = Some (Seq gf)
     \<and> length gc = 10 \<and> length gf = 10
     \<and> list_all2 (\<lambda>u v. \<exists>x y. u = Finite x \<and> v = Finite y \<and> x \<le> y) gc gf
     \<and> (\<forall>k\<in>set techs. \<exists>x y. cap k = Some (Scalar (Finite x))
            \<and> full k = Some (Scalar (Finite y)) \<and> x \<le> y)"
proof -
  let ?gF = "grid_calls_of specs ppl scen False"
  let ?gT = "grid_calls_of specs ppl scen True"
  let ?tF = "tech_calls_of specs ppl scen False"
  let ?tT = "tech_calls_of specs ppl scen True"
  let ?dict = "\<lambda>tc gc. fold (\<lambda>(k, v) lcoes. lcoes(k \<mapsto> Scalar v))
                  (map (\<lambda>(k, a). (k, Finite (lcoe_of a))) tc)
                  [GRID \<mapsto> Seq (map (\<lambda>a. Finite (lcoe_of a)) gc)]"
  have gT: "?gT = map zero_om_and_fuel ?gF"
    unfolding grid_calls_of_def by (simp add: grid_calls_capital_only [symmetric])
  have tT: "?tT = map (\<lambda>(k, a). (k, zero_om_and_fuel a)) ?tF"
    unfolding tech_calls_of_def by (simp add: tech_calls_capital_only [symmetric])
  have gv: "\<forall>a\<in>set ?gF. valid_args a"
    by (rule grid_calls_of_valid [OF assms(1-4)])
  have gn: "\<forall>a\<in>set ?gF. nonneg_args a"
    by (rule grid_calls_of_nonneg [OF assms(5)])
  have tv: "\<forall>(k, a)\<in>set ?tF. valid_args a"
    by (rule tech_calls_of_valid [OF assms(1,2)])
  have tn: "\<forall>(k, a)\<in>set ?tF. nonneg_args a"
    by (rule tech_calls_of_nonneg [OF assms(6)])
  have cap: "get_lcoes specs ppl scen True = Inr (?dict ?tT ?gT)"
    by (rule get_lcoes_valid_of [OF assms(1-4)])
  have full: "get_lcoes specs ppl scen False = Inr (?dict ?tF ?gF)"
    by (rule get_lcoes_valid_of [OF assms(1-4)])
  have cap_grid: "?dict ?tT ?gT GRID = Some (Seq (map (\<lambda>a. Finite (lcoe_of a)) ?gT))"
    unfolding tech_calls_of_def by (rule valid_dict_grid)
  have full_grid: "?dict ?tF ?gF GRID = Some (Seq (map (\<lambda>a. Finite (lcoe_of a)) ?gF))"
    unfolding tech_calls_of_def by (rule valid_dict_grid)
  have len: "length (map (\<lambda>a. Finite (lcoe_of a)) ?gT) = 10"
    "length (map (\<lambda>a. Finite (lcoe_of a)) ?gF) = 10"
    by (simp_all add: grid_calls_of_def grid_calls_def ELEC_DISTANCES_eq)
  have "\<forall>a\<in>set ?gF. lcoe_of (zero_om_and_fuel a) \<le> lcoe_of a"
    using gv gn zero_om_and_fuel_le by blast
  then have le_grid: "list_all2 (\<lambda>u v. \<exists>x y. u = Finite x \<and> v = Finite y \<and> x \<le> y)
                  (map (\<lambda>a. Finite (lcoe_of a)) ?gT) (map (\<lambda>a. Finite (lcoe_of a)) ?gF)"
    unfolding gT by (simp add: list_all2_map1 list_all2_map2 list_all2_same)
  have le_tech: "\<forall>k\<in>set techs. \<exists>x y. ?dict ?tT ?gT k = Some (Scalar (Finite x))
            \<and> ?dict ?tF ?gF k = Some (Scalar (Finite y)) \<and> x \<le> y"
  proof
    fix k
    assume "k \<in> set techs"
    from tech_call_exists [OF this] obtain a where a: "(k, a) \<in> set ?tF"
      unfolding tech_calls_of_def by blast
    then have z: "(k, zero_om_and_fuel a) \<in> set ?tT"
      unfolding tT by force
    from a tv tn have "valid_args a" "nonneg_args a"
      by blast+
    from zero_om_and_fuel_le [OF this] have "lcoe_of (zero_om_and_fuel a) \<le> lcoe_of a" .
    moreover have "?dict ?tF ?gF k = Some (Scalar (Finite (lcoe_of a)))"
      using a unfolding tech_calls_of_def by (rule valid_dict_tech)
    moreover have "?dict ?tT ?gT k = Some (Scalar (Finite (lcoe_of (zero_om_and_fuel a))))"
      using z unfolding tech_calls_of_def by (rule valid_dict_tech)
    ultimately show "\<exists>x y. ?dict ?tT ?gT k = Some (Scalar (Finite x))
            \<and> ?dict ?tF ?gF k = Some (Scalar (Finite y)) \<and> x \<le> y"
      by blast
  qed
  from cap full cap_grid full_grid len le_grid le_tech show ?thesis
    by blast
qed

theorem capital_only_le_full_witness:
  "\<exists>cap full x y. get_lcoes c3_specs 10 1000 True = Inr cap
     \<and> get_lcoes c3_specs 10 1000 False = Inr full
     \<and> cap MG_DIESEL = Some (Scalar (Finite x))
     \<and> full MG_DIESEL = Some (Scalar (Finite y)) \<and> x \<le> y"
proof -
  have 1: "0 < (10::real)" "0 < (1000::real)" "0 < BaseToPeak c3_specs"
    "- 1 < GridLosses c3_specs" "0 \<le> GridPrice c3_specs" "0 \<le> DieselPriceLow c3_specs"
    by (simp_all add: c3_specs_def)
  have 2: "MG_DIESEL \<in> set techs"
    by (simp add: techs_def)
  from capital_only_le_full [OF 1]
  obtain cap full where "get_lcoes c3_specs 10 1000 True = Inr cap"
    and "get_lcoes c3_specs 10 1000 False = Inr full"
    and "\<forall>k\<in>set techs. \<exists>x y. cap k = Some (Scalar (Finite x))
            \<and> full k = Some (Scalar (Finite y)) \<and> x \<le> y"
    by blast
  with 2 show ?thesis
    by blast
qed

subsection \<open>C4: the grid LCOE along the distances\<close>

text \<open>
  The incremental cost of lines 368 and 369, for an additional distance \<open>d\<close>:
  \<open>additional_mv_line_length * (mv_line_cost * (1 + mv_increase_rate) ** ((additional_mv_line_length / 5) - 1))\<close>.
\<close>

definition additional_mv_cost :: "real \<Rightarrow> real" where
  "additional_mv_cost d = d * (mv_line_cost * (1 + mv_increase_rate) powr ((d / 5) - 1))"

lemma additional_mv_cost_strict_mono:
  assumes "0 \<le> d" and "d < d'"
  shows "additional_mv_cost d < additional_mv_cost d'"
proof -
  let ?p = "\<lambda>d. mv_line_cost * (1 + mv_increase_rate) powr ((d / 5) - 1)"
  have "(1 + mv_increase_rate) powr ((d / 5) - 1) \<le> (1 + mv_increase_rate) powr ((d' / 5) - 1)"
    using assms by (intro powr_mono) (simp_all add: mv_increase_rate_def)
  then have "?p d \<le> ?p d'"
    by (simp add: mv_line_cost_def)
  then have "d * ?p d \<le> d * ?p d'"
    using assms(1) by (rule mult_left_mono)
  moreover have "0 < ?p d'"
    by (simp add: mv_line_cost_def mv_increase_rate_def)
  then have "d * ?p d' < d' * ?p d'"
    using assms(2) by (simp add: mult_strict_right_mono)
  ultimately show ?thesis
    unfolding additional_mv_cost_def by linarith
qed

lemma ELEC_DISTANCES_ascending: "sorted_wrt (<) ELEC_DISTANCES"
  by (simp add: ELEC_DISTANCES_eq)

lemma additional_mv_cost_ascending:
  "sorted_wrt (<) (map (\<lambda>d. additional_mv_cost (real d)) ELEC_DISTANCES)"
proof -
  have "sorted_wrt (\<lambda>d d'. additional_mv_cost (real d) < additional_mv_cost (real d'))
          ELEC_DISTANCES"
    using ELEC_DISTANCES_ascending
    by (rule sorted_wrt_mono_rel [rotated]) (simp add: additional_mv_cost_strict_mono)
  then show ?thesis
    by (simp add: sorted_wrt_map)
qed

text \<open>
  The value of a grid call is a term that the distance does not enter, plus a positive
  factor times the incremental cost.
\<close>

lemma grid_call_lcoe:
  assumes pos: "0 < ppl" "0 < scen" "0 < btp" "- 1 < losses" and om: "0 \<le> om_td"
  shows "\<exists>base rate. 0 < rate
           \<and> (\<forall>d. lcoe_of ((calc_lcoe_args ppl scen om_td losses 125 btp 30)
                              \<lparr> additional_mv_line_length := d, grid_price := gp,
                                grid := True \<rparr>)
                   = base + rate * additional_mv_cost d)"
proof -
  let ?a = "\<lambda>d. (calc_lcoe_args ppl scen om_td losses 125 btp 30)
                  \<lparr> additional_mv_line_length := d, grid_price := gp, grid := True \<rparr>"
  have args: "people (?a d) = ppl" "scenario (?a d) = scen"
    "base_to_peak_load_ratio (?a d) = btp" "distribution_losses (?a d) = losses"
    "system_life (?a d) = 30" for d
    by (simp_all add: calc_lcoe_args_def)
  have "0 < people (?a 0)" "0 < scenario (?a 0)" "0 < base_to_peak_load_ratio (?a 0)"
    "- 1 < distribution_losses (?a 0)"
    using pos by (simp_all only: args)
  from network_sizing_ok [OF this] obtain s where s0: "network_sizing (?a 0) = Inr s"
    by blast
  have s: "network_sizing (?a d) = Inr s" for d
    using network_sizing_cong [of "?a d" "?a 0"] s0 by (simp add: calc_lcoe_args_def)
  define B where "B = hv_lines_total_length s * hv_line_cost
                   + total_length_of_lines s * mv_line_cost
                   + total_lv_lines_length s * lv_line_cost
                   + of_int (num_transformers s) * hv_lv_transformer_cost
                   + households s * 125"
  define g where "g = generation_per_year s"
  define A where "A = annuity 30"
  have c: "calc_costs (?a d) s =
             Inr \<lparr> td_investment_cost = B + additional_mv_cost d,
                   total_investment_cost = B + additional_mv_cost d,
                   total_om_cost = (B + additional_mv_cost d) * om_td, fuel_cost = gp \<rparr>" for d
    by (simp add: calc_costs_def calc_fuel_cost_def calc_lcoe_args_def Let_def B_def
          additional_mv_cost_def)
  have btp: "0 < base_to_peak_load_ratio (?a d)" and life: "1 \<le> system_life (?a d)" for d
    using pos(3) by (simp_all add: calc_lcoe_args_def)
  have g: "0 < g"
    unfolding g_def by (rule network_sizing_generation_pos [OF s0 btp])
  have A: "0 < A"
    unfolding A_def by (intro annuity_pos) simp
  have "lcoe_of (?a d) = (B + additional_mv_cost d) / (g * A)
                         + (B + additional_mv_cost d) * om_td / g + gp" for d
    using lcoe_of_eq(2) [OF s c btp life, of d]
    by (simp add: g_def A_def calc_lcoe_args_def)
  then have "lcoe_of (?a d) = (B / (g * A) + B * om_td / g + gp)
                              + (1 / (g * A) + om_td / g) * additional_mv_cost d" for d
    by (simp add: add_divide_distrib algebra_simps)
  moreover have "0 < 1 / (g * A) + om_td / g"
    using g A om by (intro add_pos_nonneg) simp_all
  ultimately show ?thesis
    by blast
qed

lemma grid_calls_of_distances:
  "grid_calls_of specs ppl scen calc_cap_only =
     map (\<lambda>d. (calc_lcoe_args ppl scen (if calc_cap_only then 0 else 0.03) (GridLosses specs)
                   125 (BaseToPeak specs) 30)
                 \<lparr> additional_mv_line_length := real d,
                   grid_price := (if calc_cap_only then 0 else GridPrice specs),
                   grid := True \<rparr>) ELEC_DISTANCES"
  by (simp add: grid_calls_of_def grid_calls_def)

lemma negative_ratio_decreasing:
  "lcoe_of (negative_ratio_call 0.03 0.15 10) < lcoe_of (negative_ratio_call 0.03 0.15 5)"
proof -
  define A where "A = annuity 30"
  have A: "0 < A"
    unfolding A_def by (intro annuity_pos) simp
  have "955500 / (- 87600 * A) < 901500 / (- 87600 * A)"
    using A by (simp add: field_simps)
  then show ?thesis
    by (simp add: negative_ratio_call_lcoe(2) A_def)
qed

definition c4_specs :: country_specs where
  "c4_specs = \<lparr> Country = ''Testland'', GridPrice = 0.15, GridLosses = 0.08,
                BaseToPeak = 0.8, DieselPriceLow = 1 \<rparr>"

text \<open>
  C4 fails as worded. At a density of 0, a scenario of 0, a base-to-peak ratio of 0 or grid
  losses of \<open>-1\<close>, \<open>get_lcoes\<close> raises and there is no grid sequence. For a country whose
  base-to-peak ratio and grid losses are both negative the sequence exists and decreases:
  the generation that divides the investment cost is negative, and the grid LCOE at distance
  10 is below the grid LCOE at distance 5.
\<close>

theorem grid_lcoe_non_decreasing_counterexample:
  "get_lcoes c4_specs 0 438 False = Inl ZeroDivisionError
   \<and> get_lcoes c4_specs 10 0 False = Inl ZeroDivisionError
   \<and> get_lcoes (c4_specs \<lparr> BaseToPeak := 0 \<rparr>) 10 438 False = Inl ZeroDivisionError
   \<and> get_lcoes (c4_specs \<lparr> GridLosses := - 1 \<rparr>) 10 438 False = Inl ZeroDivisionError
   \<and> (\<exists>lcoes g x y. get_lcoes negative_ratio_specs 10 438 False = Inr lcoes
         \<and> lcoes GRID = Some (Seq g) \<and> length g = 10
         \<and> g ! 0 = Finite x \<and> g ! 1 = Finite y \<and> y < x)"
proof -
  have 1: "get_lcoes c4_specs 0 438 False = Inl ZeroDivisionError"
    by (rule get_lcoes_no_load) simp
  have 2: "get_lcoes c4_specs 10 0 False = Inl ZeroDivisionError"
    by (rule get_lcoes_no_load) simp
  have 3: "get_lcoes (c4_specs \<lparr> BaseToPeak := 0 \<rparr>) 10 438 False = Inl ZeroDivisionError"
    by (rule get_lcoes_no_load) simp
  have 4: "get_lcoes (c4_specs \<lparr> GridLosses := - 1 \<rparr>) 10 438 False = Inl ZeroDivisionError"
    by (rule get_lcoes_no_load) simp
  let ?g = "map (\<lambda>d. Finite (lcoe_of (negative_ratio_call 0.03 0.15 (real d)))) ELEC_DISTANCES"
  from negative_ratio_dict [of False] obtain lcoes
    where run: "get_lcoes negative_ratio_specs 10 438 False = Inr lcoes"
      and grid: "lcoes GRID = Some (Seq ?g)"
    by auto
  have "length ?g = 10" "?g ! 0 = Finite (lcoe_of (negative_ratio_call 0.03 0.15 5))"
    "?g ! 1 = Finite (lcoe_of (negative_ratio_call 0.03 0.15 10))"
    by (simp_all add: ELEC_DISTANCES_eq)
  with run grid negative_ratio_decreasing
  have 5: "\<exists>lcoes g x y. get_lcoes negative_ratio_specs 10 438 False = Inr lcoes
         \<and> lcoes GRID = Some (Seq g) \<and> length g = 10
         \<and> g ! 0 = Finite x \<and> g ! 1 = Finite y \<and> y < x"
    by blast
  from 1 2 3 4 5 show ?thesis
    by (intro conjI)
qed

text \<open>
  C4, amended. For every density above zero, every scenario above zero and every country
  with a positive base-to-peak ratio and grid losses above \<open>-1\<close>, in either mode, \<open>get_lcoes\<close>
  returns and the 10 values of the grid LCOE are non-decreasing along the distances
  \<open>5, 10, ..., 50\<close>. The value at distance \<open>d\<close> is a term that does not depend on \<open>d\<close>, plus
  a positive factor that does not depend on \<open>d\<close> times the incremental cost
  \<open>d * (9000 * 1.1 ** (d / 5 - 1))\<close> of the extension, which grows strictly with the
  distance.
\<close>

theorem grid_lcoe_non_decreasing:
  assumes "0 < ppl" and "0 < scen" and "0 < BaseToPeak specs" and "- 1 < GridLosses specs"
  shows "\<exists>lcoes xs base rate. get_lcoes specs ppl scen calc_cap_only = Inr lcoes
     \<and> lcoes GRID = Some (Seq (map Finite xs)) \<and> length xs = 10 \<and> sorted xs
     \<and> xs = map (\<lambda>d. base + rate * additional_mv_cost (real d)) ELEC_DISTANCES
     \<and> 0 < rate
     \<and> sorted_wrt (<) (map (\<lambda>d. additional_mv_cost (real d)) ELEC_DISTANCES)
     \<and> ELEC_DISTANCES = [5, 10, 15, 20, 25, 30, 35, 40, 45, 50]"
proof -
  let ?gc = "grid_calls_of specs ppl scen calc_cap_only"
  let ?tc = "tech_calls_of specs ppl scen calc_cap_only"
  let ?lcoes = "fold (\<lambda>(k, v) lcoes. lcoes(k \<mapsto> Scalar v))
                  (map (\<lambda>(k, a). (k, Finite (lcoe_of a))) ?tc)
                  [GRID \<mapsto> Seq (map (\<lambda>a. Finite (lcoe_of a)) ?gc)]"
  have om: "0 \<le> (if calc_cap_only then 0 else 0.03 :: real)"
    by simp
  from grid_call_lcoe [OF assms om] obtain base rate where rate: "0 < rate"
    and lcoe: "\<And>d. lcoe_of ((calc_lcoe_args ppl scen (if calc_cap_only then 0 else 0.03)
                               (GridLosses specs) 125 (BaseToPeak specs) 30)
                              \<lparr> additional_mv_line_length := d,
                                grid_price := (if calc_cap_only then 0 else GridPrice specs),
                                grid := True \<rparr>)
                   = base + rate * additional_mv_cost d"
    by blast
  define xs where "xs = map (\<lambda>d. base + rate * additional_mv_cost (real d)) ELEC_DISTANCES"
  have run: "get_lcoes specs ppl scen calc_cap_only = Inr ?lcoes"
    by (rule get_lcoes_valid_of [OF assms])
  have "?lcoes GRID = Some (Seq (map (\<lambda>a. Finite (lcoe_of a)) ?gc))"
    unfolding tech_calls_of_def by (rule valid_dict_grid)
  moreover have "map (\<lambda>a. Finite (lcoe_of a)) ?gc = map Finite xs"
    unfolding grid_calls_of_distances xs_def by (simp add: lcoe comp_def)
  ultimately have grid: "?lcoes GRID = Some (Seq (map Finite xs))"
    by simp
  have len: "length xs = 10"
    by (simp add: xs_def ELEC_DISTANCES_eq)
  have "sorted_wrt (\<lambda>d d'. base + rate * additional_mv_cost (real d)
                            \<le> base + rate * additional_mv_cost (real d')) ELEC_DISTANCES"
    using ELEC_DISTANCES_ascending
  proof (rule sorted_wrt_mono_rel [rotated])
    fix d d' :: nat
    assume "d < d'"
    then have "additional_mv_cost (real d) < additional_mv_cost (real d')"
      by (intro additional_mv_cost_strict_mono) simp_all
    with rate show "base + rate * additional_mv_cost (real d)
                      \<le> base + rate * additional_mv_cost (real d')"
      by simp
  qed
  then have asc: "sorted xs"
    by (simp add: xs_def sorted_wrt_map)
  from run grid len asc xs_def rate additional_mv_cost_ascending ELEC_DISTANCES_eq
  show ?thesis
    by blast
qed

theorem grid_lcoe_non_decreasing_witness:
  "\<exists>lcoes xs. get_lcoes c4_specs 10 1000 False = Inr lcoes
     \<and> lcoes GRID = Some (Seq (map Finite xs)) \<and> length xs = 10 \<and> sorted xs"
proof -
  have 1: "0 < (10::real)" "0 < (1000::real)" "0 < BaseToPeak c4_specs"
    "- 1 < GridLosses c4_specs"
    by (simp_all add: c4_specs_def)
  from grid_lcoe_non_decreasing [OF 1, of False] show ?thesis
    by blast
qed

end
